theory Spec2Isabelle
  imports Complex_Main
begin

section \<open>Data model\<close>

text \<open>
  Python's \<open>Decimal\<close> values and the floats derived from them are modelled as exact
  rationals; a \<open>datetime\<close> is the number of microseconds since the epoch, a
  \<open>timedelta\<close> a number of microseconds. JSON columns are kept as a small value type.
\<close>

type_synonym decimal = rat
type_synonym datetime = int

datatype json = JNull | JDict "(string \<times> string) list" | JList "(string \<times> string) list list"

text \<open>\<open>models.Price\<close>: the current price of one product at one vendor.\<close>

record Price =
  price_id :: string
  product_id :: string
  vendor_id :: string
  price :: decimal
  original_price :: "decimal option"
  discount_percentage :: "decimal option"
  stock_status :: string
  product_url :: string
  variation_details :: json
  last_updated_at :: datetime


text \<open>\<open>models.PriceHistory\<close>: an archived snapshot of a Price.\<close>

record PriceHistory =
  h_id :: string
  h_price_id :: string
  h_product_id :: string
  h_vendor_id :: string
  h_price :: decimal
  h_original_price :: "decimal option"
  h_discount_percentage :: "decimal option"
  h_stock_status :: string
  h_product_url :: string
  h_variation_details :: json
  recorded_at :: datetime

text \<open>\<open>models.Product\<close> and \<open>models.Category\<close>, with the columns the pipeline uses.\<close>

record Product =
  p_id :: string
  name :: string
  brand :: string
  category_id :: "string option"
  image_url :: "string option"
  popularity_score :: int

record Category =
  c_id :: string
  c_name :: string

text \<open>
  The database session: the rows of each table in insertion order. A query with
  \<open>.first()\<close> returns the first row that passes the filter.
\<close>

record db =
  products :: "Product list"
  prices :: "Price list"
  price_history :: "PriceHistory list"
  categories :: "Category list"

datatype error = KeyError string | ZeroDivisionError | IOError string | PendingRollbackError

text \<open>An ORM object changed in place: the first row that passes the filter is replaced.\<close>

fun update_first :: "('a \<Rightarrow> bool) \<Rightarrow> ('a \<Rightarrow> 'a) \<Rightarrow> 'a list \<Rightarrow> 'a list" where
  "update_first P f [] = []"
| "update_first P f (x # xs) = (if P x then f x # xs else x # update_first P f xs)"

section \<open>Price service (\<open>PriceService.update_or_create_price\<close>)\<close>

text \<open>
  The \<open>scraped_data\<close> dictionary: a key that is absent is \<open>None\<close>. The values under
  \<open>price\<close> and \<open>original_price\<close> are taken as numbers already.
\<close>

record scraped_data =
  sd_price :: "decimal option"
  sd_original_price :: "decimal option"
  sd_stock_status :: "string option"
  sd_product_url :: "string option"
  sd_variations :: "json option"

text \<open>\<open>dict.get(key, default)\<close>.\<close>

definition get_or :: "'a option \<Rightarrow> 'a \<Rightarrow> 'a" where
  "get_or v d = (case v of None \<Rightarrow> d | Some x \<Rightarrow> x)"

text \<open>Truth value of an optional number: \<open>None\<close> and zero are false.\<close>

definition truthy :: "decimal option \<Rightarrow> bool" where
  "truthy v = (case v of None \<Rightarrow> False | Some x \<Rightarrow> x \<noteq> 0)"

text \<open>Lines 40 to 42: \<open>new_original_price\<close> stays \<open>None\<close> unless the value is truthy.\<close>

definition new_original_price_of :: "scraped_data \<Rightarrow> decimal option" where
  "new_original_price_of sd = (if truthy (sd_original_price sd) then sd_original_price sd else None)"

text \<open>Lines 44 to 49: the discount of the service.\<close>

definition service_discount :: "decimal \<Rightarrow> decimal option \<Rightarrow> decimal option" where
  "service_discount new_price new_original_price =
     (case new_original_price of
        None \<Rightarrow> None
      | Some orig \<Rightarrow>
          if orig \<noteq> 0 \<and> new_price < orig then Some (((orig - new_price) / orig) * 100)
          else None)"

definition archive_price_to_history :: "string \<Rightarrow> Price \<Rightarrow> PriceHistory" where
  "archive_price_to_history hid price_record =
     \<lparr> h_id = hid,
       h_price_id = price_id price_record,
       h_product_id = product_id price_record,
       h_vendor_id = vendor_id price_record,
       h_price = price price_record,
       h_original_price = original_price price_record,
       h_discount_percentage = discount_percentage price_record,
       h_stock_status = stock_status price_record,
       h_product_url = product_url price_record,
       h_variation_details = variation_details price_record,
       recorded_at = last_updated_at price_record \<rparr>"

definition same_pair :: "string \<Rightarrow> string \<Rightarrow> Price \<Rightarrow> bool" where
  "same_pair pid vid p = (product_id p = pid \<and> vendor_id p = vid)"

text \<open>
  \<open>update_or_create_price\<close>. \<open>hid\<close> and \<open>nid\<close> are the identifiers drawn for a new
  history row and a new price row, \<open>now\<close> is \<open>datetime.utcnow()\<close>. A missing
  \<open>price\<close> key raises: the session is rolled back and the error re-raised.
\<close>

definition update_or_create_price ::
  "string \<Rightarrow> string \<Rightarrow> datetime \<Rightarrow> string \<Rightarrow> string \<Rightarrow> scraped_data \<Rightarrow> db \<Rightarrow> error + (Price \<times> db)" where
  "update_or_create_price hid nid now pid vid sd d =
     (let existing_price = find (same_pair pid vid) (prices d) in
      case sd_price sd of
        None \<Rightarrow> Inl (KeyError ''price'')
      | Some new_price \<Rightarrow>
          let new_original_price = new_original_price_of sd;
              discount = service_discount new_price new_original_price
          in case existing_price of
               Some ex \<Rightarrow>
                 let price_changed = (\<bar>price ex - new_price\<bar> > 1 / 100);
                     hist = (if price_changed
                             then price_history d @ [archive_price_to_history hid ex]
                             else price_history d);
                     ex' = ex \<lparr> price := new_price,
                                original_price := new_original_price,
                                discount_percentage := discount,
                                stock_status := get_or (sd_stock_status sd) ''in_stock'',
                                product_url := get_or (sd_product_url sd) (product_url ex),
                                variation_details := get_or (sd_variations sd) (JDict []),
                                last_updated_at := now \<rparr>
                 in Inr (ex', d \<lparr> prices := update_first (same_pair pid vid) (\<lambda>_. ex') (prices d),
                                  price_history := hist \<rparr>)
             | None \<Rightarrow>
                 let new_price_record =
                       \<lparr> price_id = nid, product_id = pid, vendor_id = vid,
                         price = new_price,
                         original_price = new_original_price,
                         discount_percentage = discount,
                         stock_status = get_or (sd_stock_status sd) ''in_stock'',
                         product_url = get_or (sd_product_url sd) [],
                         variation_details = get_or (sd_variations sd) (JDict []),
                         last_updated_at = now \<rparr>
                 in Inr (new_price_record, d \<lparr> prices := prices d @ [new_price_record] \<rparr>))"

section \<open>Freshness (\<open>PriceService.get_data_freshness_info\<close>)\<close>

text \<open>
  \<open>time_diff.total_seconds() / 3600\<close>: the age of a record in hours, from the two
  timestamps in microseconds.
\<close>

definition hours_old :: "datetime \<Rightarrow> datetime \<Rightarrow> rat" where
  "hours_old now last_updated = (of_int (now - last_updated) / 1000000) / 3600"

text \<open>The \<open>if\<close>/\<open>elif\<close> chain of the loop body, starting from \<open>'fresh'\<close>.\<close>

definition freshness_status :: "rat \<Rightarrow> string" where
  "freshness_status h =
     (if h > 24 then ''stale'' else if h > 12 then ''aging'' else ''fresh'')"

record freshness_entry =
  fe_price_id :: string
  fe_hours_old :: rat
  fe_freshness_status :: string

definition freshness_of :: "datetime \<Rightarrow> Price \<Rightarrow> freshness_entry" where
  "freshness_of now p =
     \<lparr> fe_price_id = price_id p,
       fe_hours_old = hours_old now (last_updated_at p),
       fe_freshness_status = freshness_status (hours_old now (last_updated_at p)) \<rparr>"

text \<open>
  The function returns an error dictionary when there is no price, otherwise one entry
  per price (the rounded summary statistics are not part of the model).
\<close>

definition get_data_freshness_info :: "datetime \<Rightarrow> Price list \<Rightarrow> freshness_entry list option" where
  "get_data_freshness_info now rows =
     (if rows = [] then None else Some (map (freshness_of now) rows))"

section \<open>Strings\<close>

text \<open>
  Names and price texts are taken as ASCII strings: \<open>str.lower\<close> maps \<open>A\<close> to \<open>Z\<close>,
  \<open>\d\<close> is one of the ten digits and \<open>\s\<close> (as \<open>str.strip\<close> and \<open>str.split\<close>)
  one of the ASCII whitespace characters of Python.
\<close>

definition is_digit :: "char \<Rightarrow> bool" where
  "is_digit c = (c \<in> set ''0123456789'')"

definition is_space :: "char \<Rightarrow> bool" where
  "is_space c = ((of_char c :: nat) \<in> set [9, 10, 11, 12, 13, 28, 29, 30, 31, 32])"

definition lower_char :: "char \<Rightarrow> char" where
  "lower_char c =
     (let n = (of_char c :: nat) in if 65 \<le> n \<and> n \<le> 90 then char_of (n + 32) else c)"

definition lower :: "string \<Rightarrow> string" where
  "lower s = map lower_char s"

definition strip :: "string \<Rightarrow> string" where
  "strip s = rev (dropWhile is_space (rev (dropWhile is_space s)))"

text \<open>\<open>s.startswith(pre)\<close> and \<open>sub in s\<close>.\<close>

fun starts_with :: "string \<Rightarrow> string \<Rightarrow> bool" where
  "starts_with [] s = True"
| "starts_with (p # ps) [] = False"
| "starts_with (p # ps) (c # cs) = (p = c \<and> starts_with ps cs)"

fun contains :: "string \<Rightarrow> string \<Rightarrow> bool" where
  "contains sub [] = (sub = [])"
| "contains sub (c # cs) = (starts_with sub (c # cs) \<or> contains sub cs)"

text \<open>\<open>str.split()\<close>: the maximal runs of characters that are not whitespace.\<close>

fun split_acc :: "string \<Rightarrow> string \<Rightarrow> string list" where
  "split_acc cur [] = (if cur = [] then [] else [cur])"
| "split_acc cur (c # cs) =
     (if is_space c then (if cur = [] then split_acc [] cs else cur # split_acc [] cs)
      else split_acc (cur @ [c]) cs)"

definition split :: "string \<Rightarrow> string list" where
  "split s = split_acc [] s"

text \<open>
  \<open>re.findall\<close> for a pattern that is one group and matches no empty text. \<open>m\<close> gives
  the text matched at the start of its argument, if any; the scan goes left to right and
  resumes after each match (\<open>k\<close> counts the characters of the last match still to skip).
\<close>

fun findall :: "(string \<Rightarrow> string option) \<Rightarrow> nat \<Rightarrow> string \<Rightarrow> string list" where
  "findall m k [] = []"
| "findall m k (c # cs) =
     (if k > 0 then findall m (k - 1) cs
      else (case m (c # cs) of
              Some g \<Rightarrow> g # findall m (length g - 1) cs
            | None \<Rightarrow> findall m 0 cs))"

section \<open>Product matcher (\<open>ProductMatcher\<close>)\<close>

text \<open>\<open>scrapers.base.ScrapedProduct\<close>.\<close>

record ScrapedProduct =
  sp_name :: string
  sp_price :: decimal
  sp_original_price :: "decimal option"
  sp_stock_status :: string
  sp_product_url :: string
  sp_image_url :: "string option"
  sp_variations :: json

text \<open>
  The three measures of the \<open>fuzzywuzzy\<close> library, which is not part of the repository:
  each gives an integer score for two strings.
\<close>

record fuzz =
  ratio :: "string \<Rightarrow> string \<Rightarrow> nat"
  token_sort_ratio :: "string \<Rightarrow> string \<Rightarrow> nat"
  partial_ratio :: "string \<Rightarrow> string \<Rightarrow> nat"

definition brands :: "string list" where
  "brands = [''apple'', ''samsung'', ''sony'', ''bose'', ''dell'', ''hp'', ''lenovo'',
             ''microsoft'', ''jbl'']"

definition product_types :: "string list" where
  "product_types = [''macbook'', ''iphone'', ''ipad'', ''airpods'', ''surface'', ''xps'',
                    ''thinkpad'', ''headphones'', ''earbuds'', ''speaker'']"

text \<open>\<open>(m[1-4](?:\s+(?:pro|max|ultra))?)\<close>\<close>

definition m_chip :: "string \<Rightarrow> string option" where
  "m_chip s =
     (case s of
        c1 # c2 # r \<Rightarrow>
          if c1 = CHR ''m'' \<and> c2 \<in> set ''1234'' then
            (let ws = takeWhile is_space r; r' = dropWhile is_space r in
             if ws \<noteq> [] \<and> starts_with ''pro'' r' then Some ([c1, c2] @ ws @ ''pro'')
             else if ws \<noteq> [] \<and> starts_with ''max'' r' then Some ([c1, c2] @ ws @ ''max'')
             else if ws \<noteq> [] \<and> starts_with ''ultra'' r' then Some ([c1, c2] @ ws @ ''ultra'')
             else Some [c1, c2])
          else None
      | _ \<Rightarrow> None)"

text \<open>\<open>(\d+(?:\.\d+)?["\-]?(?:inch)?)\<close>\<close>

definition m_size :: "string \<Rightarrow> string option" where
  "m_size s =
     (let ds = takeWhile is_digit s; r = dropWhile is_digit s in
      if ds = [] then None
      else
        let frac = (case r of
                      c # t \<Rightarrow> if c = CHR ''.'' \<and> takeWhile is_digit t \<noteq> []
                                then c # takeWhile is_digit t else []
                    | [] \<Rightarrow> []);
            r1 = drop (length frac) r;
            q = (case r1 of
                   c # t \<Rightarrow> if c = CHR 0x22 \<or> c = CHR ''-'' then [c] else []
                 | [] \<Rightarrow> []);
            r2 = drop (length q) r1;
            inch = (if starts_with ''inch'' r2 then ''inch'' else [])
        in Some (ds @ frac @ q @ inch))"

text \<open>\<open>(pro|air|max|mini|plus)\<close>\<close>

definition m_variant :: "string \<Rightarrow> string option" where
  "m_variant s = find (\<lambda>w. starts_with w s) [''pro'', ''air'', ''max'', ''mini'', ''plus'']"

text \<open>\<open>(\d+gb|\d+tb)\<close>\<close>

definition m_storage :: "string \<Rightarrow> string option" where
  "m_storage s =
     (let ds = takeWhile is_digit s; r = dropWhile is_digit s in
      if ds = [] then None
      else if starts_with ''gb'' r then Some (ds @ ''gb'')
      else if starts_with ''tb'' r then Some (ds @ ''tb'')
      else None)"

definition model_patterns :: "(string \<Rightarrow> string option) list" where
  "model_patterns = [m_chip, m_size, m_variant, m_storage]"

definition extract_product_keywords :: "string \<Rightarrow> string list" where
  "extract_product_keywords product_name =
     (let name_lower = lower product_name;
          keywords = filter (\<lambda>b. contains b name_lower) brands
                   @ filter (\<lambda>ptype. contains ptype name_lower) product_types
                   @ concat (map (\<lambda>pattern. findall pattern 0 name_lower) model_patterns)
      in map strip (filter (\<lambda>k. strip k \<noteq> []) keywords))"

text \<open>Step 4 of the loop body: the share of common keywords, as a percentage.\<close>

definition keyword_score :: "string list \<Rightarrow> string list \<Rightarrow> rat" where
  "keyword_score ks pks =
     (of_nat (card (set ks \<inter> set pks)) / of_nat (max (length ks) (length pks))) * 100"

definition scores_for :: "fuzz \<Rightarrow> string \<Rightarrow> string list \<Rightarrow> Product \<Rightarrow> rat list" where
  "scores_for fz sname product_keywords product =
     [of_nat (ratio fz (lower sname) (lower (name product))),
      of_nat (token_sort_ratio fz (lower sname) (lower (name product))),
      of_nat (partial_ratio fz (lower sname) (lower (name product)))]
     @ (let product_product_keywords = extract_product_keywords (name product) in
        if product_keywords \<noteq> [] \<and> product_product_keywords \<noteq> []
        then [keyword_score product_keywords product_product_keywords] else [])"

text \<open>\<open>max(scores)\<close>; the list always holds the three ratios.\<close>

definition composite_score :: "fuzz \<Rightarrow> string \<Rightarrow> string list \<Rightarrow> Product \<Rightarrow> rat" where
  "composite_score fz sname product_keywords product =
     (case scores_for fz sname product_keywords product of
        x # xs \<Rightarrow> fold max xs x
      | [] \<Rightarrow> 0)"

text \<open>The loop over the catalog, with \<open>(best_match, best_score)\<close> as its state.\<close>

fun match_loop ::
  "fuzz \<Rightarrow> int \<Rightarrow> string \<Rightarrow> string list \<Rightarrow> Product list \<Rightarrow> Product option \<times> rat
     \<Rightarrow> Product option \<times> rat" where
  "match_loop fz th sname kws [] acc = acc"
| "match_loop fz th sname kws (product # rest) (best_match, best_score) =
     (let score = composite_score fz sname kws product in
      if score > best_score \<and> score \<ge> of_int th
      then match_loop fz th sname kws rest (Some product, score)
      else match_loop fz th sname kws rest (best_match, best_score))"

definition best_match_of :: "fuzz \<Rightarrow> int \<Rightarrow> ScrapedProduct \<Rightarrow> db \<Rightarrow> Product option" where
  "best_match_of fz th sp d =
     fst (match_loop fz th (sp_name sp) (extract_product_keywords (sp_name sp)) (products d) (None, 0))"

definition category_keywords :: "(string \<times> string list) list" where
  "category_keywords =
     [(''laptops'', [''laptop'', ''macbook'', ''notebook'', ''ultrabook'', ''chromebook'']),
      (''headphones'', [''headphone'', ''earphone'', ''earbud'', ''airpods'', ''headset'']),
      (''speakers'', [''speaker'', ''soundbar'', ''bluetooth speaker'', ''wireless speaker''])]"

definition category_by_name :: "string \<Rightarrow> db \<Rightarrow> Category option" where
  "category_by_name n d = find (\<lambda>c. c_name c = n) (categories d)"

fun determine_category_loop :: "string \<Rightarrow> db \<Rightarrow> (string \<times> string list) list \<Rightarrow> Category option" where
  "determine_category_loop name_lower d [] = category_by_name ''laptops'' d"
| "determine_category_loop name_lower d ((category_name, keywords) # rest) =
     (if list_ex (\<lambda>keyword. contains keyword name_lower) keywords
      then (case category_by_name category_name d of
              Some category \<Rightarrow> Some category
            | None \<Rightarrow> determine_category_loop name_lower d rest)
      else determine_category_loop name_lower d rest)"

definition determine_category :: "string \<Rightarrow> db \<Rightarrow> Category option" where
  "determine_category product_name d = determine_category_loop (lower product_name) d category_keywords"

definition common_brands :: "string list" where
  "common_brands = [''Apple'', ''Samsung'', ''Sony'', ''Bose'', ''Dell'', ''HP'', ''Lenovo'',
                    ''ASUS'', ''Acer'', ''Microsoft'', ''Google'', ''Amazon'', ''JBL'', ''Beats'']"

fun extract_brand_loop :: "string list \<Rightarrow> string option" where
  "extract_brand_loop [] = None"
| "extract_brand_loop (word # rest) =
     (case find (\<lambda>b. lower word = lower b) common_brands of
        Some b \<Rightarrow> Some b
      | None \<Rightarrow> extract_brand_loop rest)"

definition extract_brand :: "string \<Rightarrow> string" where
  "extract_brand product_name =
     (let name_words = split product_name in
      case extract_brand_loop name_words of
        Some b \<Rightarrow> b
      | None \<Rightarrow> (case name_words of w # _ \<Rightarrow> w | [] \<Rightarrow> ''Unknown''))"

text \<open>\<open>_create_new_product\<close>; \<open>uid\<close> is the identifier drawn with \<open>uuid4\<close>.\<close>

definition create_new_product :: "string \<Rightarrow> ScrapedProduct \<Rightarrow> db \<Rightarrow> Product \<times> db" where
  "create_new_product uid sp d =
     (let category = determine_category (sp_name sp) d;
          new_product = \<lparr> p_id = uid,
                          name = sp_name sp,
                          brand = extract_brand (sp_name sp),
                          category_id = map_option c_id category,
                          image_url = sp_image_url sp,
                          popularity_score = 1 \<rparr>
      in (new_product, d \<lparr> products := products d @ [new_product] \<rparr>))"

definition find_matching_product :: "fuzz \<Rightarrow> int \<Rightarrow> string \<Rightarrow> ScrapedProduct \<Rightarrow> db \<Rightarrow> Product \<times> db" where
  "find_matching_product fz th uid sp d =
     (case best_match_of fz th sp d of
        Some best_match \<Rightarrow> (best_match, d)
      | None \<Rightarrow> create_new_product uid sp d)"

section \<open>Scraper pipeline (\<open>ScraperPipeline\<close>)\<close>

text \<open>
  Python's \<open>round(x, 2)\<close> on a \<open>Decimal\<close>: to the nearest hundredth, a tie going to the
  even one.
\<close>

definition round_half_even :: "rat \<Rightarrow> int" where
  "round_half_even x =
     (let f = \<lfloor>x\<rfloor>; r = x - of_int f in
      if r < 1 / 2 then f else if r > 1 / 2 then f + 1 else if even f then f else f + 1)"

definition round2 :: "rat \<Rightarrow> rat" where
  "round2 x = of_int (round_half_even (x * 100)) / 100"

text \<open>
  \<open>_store_product_data\<close>. \<open>uid\<close> is the identifier for a product the matcher creates,
  \<open>nid\<close> the one for a new price row, \<open>vid\<close> the vendor's identifier. The product row is
  found again by its primary key for the popularity update.
\<close>

definition store_product_data ::
  "fuzz \<Rightarrow> int \<Rightarrow> string \<Rightarrow> string \<Rightarrow> datetime \<Rightarrow> ScrapedProduct \<Rightarrow> string \<Rightarrow> db \<Rightarrow> db" where
  "store_product_data fz th uid nid now sp vid d =
     (let (product, d1) = find_matching_product fz th uid sp d;
          existing_price = find (same_pair (p_id product) vid) (prices d1);
          d2 = (case existing_price of
                  Some ex \<Rightarrow>
                    let ex1 = ex \<lparr> price := sp_price sp,
                                   original_price := sp_original_price sp,
                                   stock_status := sp_stock_status sp,
                                   product_url := sp_product_url sp,
                                   last_updated_at := now \<rparr>;
                        ex2 = (if truthy (sp_original_price sp) \<and> sp_price sp \<noteq> 0
                               then ex1 \<lparr> discount_percentage :=
                                      Some (round2 (((the (sp_original_price sp) - sp_price sp)
                                                      / the (sp_original_price sp)) * 100)) \<rparr>
                               else ex1)
                    in d1 \<lparr> prices := update_first (same_pair (p_id product) vid) (\<lambda>_. ex2) (prices d1) \<rparr>
                | None \<Rightarrow>
                    let discount_percentage' =
                          (if truthy (sp_original_price sp) \<and> sp_price sp \<noteq> 0
                           then Some (round2 (((the (sp_original_price sp) - sp_price sp)
                                                / the (sp_original_price sp)) * 100))
                           else None);
                        new_price = \<lparr> price_id = nid,
                                      product_id = p_id product,
                                      vendor_id = vid,
                                      price = sp_price sp,
                                      original_price = sp_original_price sp,
                                      discount_percentage = discount_percentage',
                                      stock_status = sp_stock_status sp,
                                      product_url = sp_product_url sp,
                                      variation_details = sp_variations sp,
                                      last_updated_at = now \<rparr>
                    in d1 \<lparr> prices := prices d1 @ [new_price] \<rparr>)
      in d2 \<lparr> products := update_first (\<lambda>p. p_id p = p_id product)
                              (\<lambda>p. p \<lparr> popularity_score := popularity_score p + 1 \<rparr>) (products d2) \<rparr>)"

text \<open>
  The SQLAlchemy session of a run. Once a flush of the session has failed, the session
  needs a rollback: every later query, attribute load and commit on it raises until
  \<open>rollback()\<close> is called, and the objects it holds are expired. No function of the
  pipeline calls \<open>rollback()\<close>.
\<close>

record 'd session =
  rows :: 'd
  needs_rollback :: bool

text \<open>
  What one call of \<open>_store_product_data\<close> does on a usable session: its commits
  succeed, leaving the rows given; or it raises before it has changed the session (a
  query that fails, say); or the flush of one of its commits raises, with the rows
  committed before it (when the matcher created a product and that commit succeeded,
  the new product is among them).
\<close>

datatype 'd store_result = Stored 'd | Raised error | Flush_failed error 'd

text \<open>
  A store on the session of the run. \<open>_store_product_data\<close> starts with the catalog
  query of the matcher, which raises on a session that needs a rollback.
\<close>

definition store_in_session ::
  "('sp \<Rightarrow> 'd \<Rightarrow> 'd store_result) \<Rightarrow> 'sp \<Rightarrow> 'd session \<Rightarrow> (error + unit) \<times> 'd session" where
  "store_in_session store scraped_product s =
     (if needs_rollback s then (Inl PendingRollbackError, s)
      else case store scraped_product (rows s) of
             Stored d' \<Rightarrow> (Inr (), s \<lparr> rows := d' \<rparr>)
           | Raised e \<Rightarrow> (Inl e, s)
           | Flush_failed e d' \<Rightarrow> (Inl e, s \<lparr> rows := d', needs_rollback := True \<rparr>))"

text \<open>
  \<open>_run_vendor_scraper\<close>. The scraper's \<open>search_product\<close> and the store operation are
  parameters: the first is the vendor's scraper, the second stands for
  \<open>_store_product_data\<close> together with the persistence layer under it. The loop state
  is \<open>(products_scraped, errors, session)\<close>. The inner handler counts a store that
  raises and goes on, without a rollback.
\<close>

fun store_loop ::
  "('sp \<Rightarrow> 'd \<Rightarrow> 'd store_result) \<Rightarrow> 'sp list \<Rightarrow> nat \<times> nat \<times> 'd session
     \<Rightarrow> nat \<times> nat \<times> 'd session" where
  "store_loop store [] acc = acc"
| "store_loop store (scraped_product # rest) (products_scraped, errors, s) =
     (case store_in_session store scraped_product s of
        (Inr u, s') \<Rightarrow> store_loop store rest (products_scraped + 1, errors, s')
      | (Inl e, s') \<Rightarrow> store_loop store rest (products_scraped, errors + 1, s'))"

text \<open>
  The query loop. Each pass reads \<open>vendor.name\<close> for its log line inside the \<open>try\<close>, and
  the handler reads it again: on a session that needs a rollback the first read raises
  into the handler and the second raises out of the function. On a usable session a
  search that raises is counted by the handler.
\<close>

fun run_vendor_scraper ::
  "(string \<Rightarrow> error + 'sp list) \<Rightarrow> ('sp \<Rightarrow> 'd \<Rightarrow> 'd store_result) \<Rightarrow> string list
     \<Rightarrow> nat \<times> nat \<times> 'd session \<Rightarrow> (error \<times> 'd session) + (nat \<times> nat \<times> 'd session)" where
  "run_vendor_scraper search store [] acc = Inr acc"
| "run_vendor_scraper search store (query # rest) (products_scraped, errors, s) =
     (if needs_rollback s then Inl (PendingRollbackError, s)
      else case search query of
             Inr scraped_products \<Rightarrow>
               run_vendor_scraper search store rest
                 (store_loop store scraped_products (products_scraped, errors, s))
           | Inl e \<Rightarrow> run_vendor_scraper search store rest (products_scraped, errors + 1, s))"

text \<open>\<open>models.ScraperRun\<close>.\<close>

record ScraperRun =
  run_vendor_id :: string
  status :: string
  run_products_scraped :: nat
  errors_count :: nat
  duration_seconds :: "int option"
  error_details :: "string option"
  started_at :: "datetime option"
  completed_at :: "datetime option"

text \<open>\<open>int(delta.total_seconds())\<close>: whole seconds, truncated towards zero.\<close>

definition whole_seconds :: "int \<Rightarrow> int" where
  "whole_seconds us = (if us \<ge> 0 then us div 1000000 else - ((- us) div 1000000))"

definition start_scraper_run :: "string \<Rightarrow> datetime \<Rightarrow> ScraperRun" where
  "start_scraper_run vid now =
     \<lparr> run_vendor_id = vid, status = ''running'', run_products_scraped = 0, errors_count = 0,
       duration_seconds = None, error_details = None, started_at = Some now,
       completed_at = None \<rparr>"

definition complete_scraper_run :: "ScraperRun \<Rightarrow> nat \<times> nat \<Rightarrow> datetime \<Rightarrow> ScraperRun" where
  "complete_scraper_run scraper_run results now =
     (let r = scraper_run \<lparr> status := ''completed'',
                             run_products_scraped := fst results,
                             errors_count := snd results,
                             completed_at := Some now \<rparr>
      in case started_at r of
           Some t \<Rightarrow> r \<lparr> duration_seconds := Some (whole_seconds (now - t)) \<rparr>
         | None \<Rightarrow> r)"

definition fail_scraper_run :: "ScraperRun \<Rightarrow> string \<Rightarrow> datetime \<Rightarrow> ScraperRun" where
  "fail_scraper_run scraper_run error_message now =
     (let r = scraper_run \<lparr> status := ''failed'',
                             completed_at := Some now,
                             error_details := Some error_message \<rparr>
      in case started_at r of
           Some t \<Rightarrow> r \<lparr> duration_seconds := Some (whole_seconds (now - t)) \<rparr>
         | None \<Rightarrow> r)"

text \<open>\<open>str(e)\<close>\<close>

fun error_text :: "error \<Rightarrow> string" where
  "error_text (KeyError k) = k"
| "error_text ZeroDivisionError = ''division by zero''"
| "error_text (IOError m) = m"
| "error_text PendingRollbackError = ''rollback needed''"

text \<open>
  One pass of the vendor loop of \<open>run_all_scrapers\<close>: what leaves the function
  (\<open>escaped\<close>), the ScraperRun row as last committed (\<open>stored_run\<close>) and the session.
  The vendor query and \<open>_start_scraper_run\<close> come first. \<open>_complete_scraper_run\<close> and
  \<open>_fail_scraper_run\<close> both read \<open>scraper_run.started_at\<close> and commit; on a session
  that needs a rollback the first of them raises into the \<open>except\<close> branch and
  \<open>_fail_scraper_run\<close> raises out of \<open>run_all_scrapers\<close>, so neither change of the row
  is committed.
\<close>

record 'd vendor_pass =
  escaped :: "error option"
  stored_run :: "ScraperRun option"
  session_after :: "'d session"

definition run_one_vendor ::
  "(string \<Rightarrow> error + 'sp list) \<Rightarrow> ('sp \<Rightarrow> 'd \<Rightarrow> 'd store_result) \<Rightarrow> string list \<Rightarrow> string
     \<Rightarrow> datetime \<Rightarrow> datetime \<Rightarrow> 'd session \<Rightarrow> 'd vendor_pass" where
  "run_one_vendor search store queries vid t0 t1 s =
     (if needs_rollback s
      then \<lparr> escaped = Some PendingRollbackError, stored_run = None, session_after = s \<rparr>
      else
        let scraper_run = start_scraper_run vid t0 in
        case run_vendor_scraper search store queries (0, 0, s) of
          Inr (products_scraped, errors, s') \<Rightarrow>
            if needs_rollback s'
            then \<lparr> escaped = Some PendingRollbackError, stored_run = Some scraper_run,
                   session_after = s' \<rparr>
            else \<lparr> escaped = None,
                   stored_run = Some (complete_scraper_run scraper_run (products_scraped, errors) t1),
                   session_after = s' \<rparr>
        | Inl (e, s') \<Rightarrow>
            if needs_rollback s'
            then \<lparr> escaped = Some PendingRollbackError, stored_run = Some scraper_run,
                   session_after = s' \<rparr>
            else \<lparr> escaped = None,
                   stored_run = Some (fail_scraper_run scraper_run (error_text e) t1),
                   session_after = s' \<rparr>)"

section \<open>Pricing engine (\<open>PricingEngine.calculate_price_trends\<close>)\<close>

text \<open>An entry of the list built by \<open>get_price_history\<close>; prices are floats in the source.\<close>

record history_entry =
  he_vendor_id :: string
  he_price :: rat
  he_timestamp :: datetime

text \<open>
  \<open>get_price_history\<close>: the Price rows of the product updated since the cutoff, ordered by
  \<open>last_updated_at\<close> descending (rows with equal timestamps keep their table order).
\<close>

definition get_price_history :: "datetime \<Rightarrow> string \<Rightarrow> int \<Rightarrow> db \<Rightarrow> history_entry list" where
  "get_price_history now pid days d =
     (let cutoff_date = now - days * 86400 * 1000000;
          rows = filter (\<lambda>p. product_id p = pid \<and> last_updated_at p \<ge> cutoff_date) (prices d)
      in map (\<lambda>p. \<lparr> he_vendor_id = vendor_id p, he_price = price p,
                       he_timestamp = last_updated_at p \<rparr>)
             (sort_key (\<lambda>p. - last_updated_at p) rows))"

text \<open>\<open>statistics.mean\<close> of a list that is not empty.\<close>

definition mean :: "rat list \<Rightarrow> rat" where
  "mean xs = sum_list xs / of_nat (length xs)"

text \<open>\<open>xs[-10:]\<close> and \<open>xs[:10]\<close>.\<close>

definition last10 :: "'a list \<Rightarrow> 'a list" where
  "last10 xs = drop (length xs - 10) xs"

definition first10 :: "'a list \<Rightarrow> 'a list" where
  "first10 xs = take 10 xs"

text \<open>The conditional expression that gives \<open>direction\<close>.\<close>

definition direction_of :: "rat \<Rightarrow> string" where
  "direction_of overall_change =
     (if overall_change > 2 then ''increasing''
      else if overall_change < -2 then ''decreasing'' else ''stable'')"

text \<open>The \<open>if\<close>/\<open>elif\<close> chain that gives the \<open>trend\<close> of one vendor.\<close>

definition trend_of :: "rat \<Rightarrow> string" where
  "trend_of percentage_change =
     (if \<bar>percentage_change\<bar> < 2 then ''stable''
      else if percentage_change > 0 then ''increasing'' else ''decreasing'')"

record vendor_trend =
  vt_trend :: string
  vt_price_change :: rat
  vt_percentage_change :: rat
  vt_current_price :: rat
  vt_previous_price :: rat
  vt_data_points :: nat

text \<open>
  One vendor's trend: its entries sorted by timestamp, the last against the first.
  Fewer than two entries give no trend; a first price of zero raises.
\<close>

definition vendor_trend_of :: "history_entry list \<Rightarrow> string \<Rightarrow> error + vendor_trend option" where
  "vendor_trend_of history vid =
     (let vendor_history = sort_key he_timestamp (filter (\<lambda>h. he_vendor_id h = vid) history)
      in if length vendor_history \<ge> 2 then
           (let recent_price = he_price (last vendor_history);
                older_price = he_price (hd vendor_history);
                price_change = recent_price - older_price
            in if older_price = 0 then Inl ZeroDivisionError
               else let percentage_change = (price_change / older_price) * 100
                    in Inr (Some \<lparr> vt_trend = trend_of percentage_change,
                                    vt_price_change = price_change,
                                    vt_percentage_change = percentage_change,
                                    vt_current_price = recent_price,
                                    vt_previous_price = older_price,
                                    vt_data_points = length vendor_history \<rparr>))
         else Inr None)"

fun vendor_trends_of ::
  "history_entry list \<Rightarrow> string list \<Rightarrow> error + (string \<times> vendor_trend) list" where
  "vendor_trends_of history [] = Inr []"
| "vendor_trends_of history (vid # rest) =
     (case vendor_trend_of history vid of
        Inl e \<Rightarrow> Inl e
      | Inr t \<Rightarrow>
          (case vendor_trends_of history rest of
             Inl e \<Rightarrow> Inl e
           | Inr ts \<Rightarrow> Inr ((case t of Some vt \<Rightarrow> [(vid, vt)] | None \<Rightarrow> []) @ ts)))"

record overall_trend =
  ot_direction :: string
  ot_percentage_change :: rat
  ot_recent_average :: rat
  ot_historical_average :: rat

datatype trends = Insufficient_data | Trends "(string \<times> vendor_trend) list" overall_trend

text \<open>
  \<open>calculate_price_trends\<close>. The vendors are visited in the order of their first entry
  (the source iterates over a set); the figures are kept unrounded. A list of at least
  two entries makes both windows non-empty.
\<close>

definition calculate_price_trends :: "history_entry list \<Rightarrow> error + trends" where
  "calculate_price_trends history =
     (if length history < 2 then Inr Insufficient_data
      else
        case vendor_trends_of history (remdups (map he_vendor_id history)) of
          Inl e \<Rightarrow> Inl e
        | Inr vendor_trends \<Rightarrow>
            let all_recent_prices = map he_price (last10 history);
                all_older_prices = map he_price (first10 history);
                recent_avg = mean all_recent_prices;
                older_avg = mean all_older_prices
            in if older_avg = 0 then Inl ZeroDivisionError
               else let overall_change = ((recent_avg - older_avg) / older_avg) * 100
                    in Inr (Trends vendor_trends
                              \<lparr> ot_direction = direction_of overall_change,
                                ot_percentage_change = overall_change,
                                ot_recent_average = recent_avg,
                                ot_historical_average = older_avg \<rparr>))"


section \<open>Price text (\<open>BaseScraper.normalize_price\<close>)\<close>

text \<open>\<open>re.sub(r'[^\d.,]', '', price_text.strip())\<close>\<close>

definition cleaned_of :: "string \<Rightarrow> string" where
  "cleaned_of price_text =
     filter (\<lambda>c. is_digit c \<or> c = CHR ''.'' \<or> c = CHR '','') (strip price_text)"

text \<open>
  \<open>re.search\<close>: the match at the leftmost position that has one. \<open>m\<close> gives the text
  matched at the start of its argument; none of the patterns matches the empty text.
\<close>

fun re_search :: "(string \<Rightarrow> string option) \<Rightarrow> string \<Rightarrow> string option" where
  "re_search m [] = None"
| "re_search m (c # cs) = (case m (c # cs) of Some g \<Rightarrow> Some g | None \<Rightarrow> re_search m cs)"

text \<open>\<open>\.\d{2}\<close>\<close>

definition cents :: "string \<Rightarrow> string option" where
  "cents s =
     (case s of
        c0 # c1 # c2 # _ \<Rightarrow>
          if c0 = CHR ''.'' \<and> is_digit c1 \<and> is_digit c2 then Some [c0, c1, c2] else None
      | _ \<Rightarrow> None)"

text \<open>
  \<open>(?:,\d{3})*\.\d{2}\<close>: as many groups as possible, giving one back at a time until
  the cents match.
\<close>

fun groups_then_cents :: "string \<Rightarrow> string option" where
  "groups_then_cents (c0 # c1 # c2 # c3 # rest) =
     (if c0 = CHR '','' \<and> is_digit c1 \<and> is_digit c2 \<and> is_digit c3 then
        (case groups_then_cents rest of
           Some t \<Rightarrow> Some (c0 # c1 # c2 # c3 # t)
         | None \<Rightarrow> cents (c0 # c1 # c2 # c3 # rest))
      else cents (c0 # c1 # c2 # c3 # rest))"
| "groups_then_cents s = cents s"

text \<open>\<open>(?:,\d{3})*\<close> with nothing after it: as many groups as possible.\<close>

fun groups :: "string \<Rightarrow> string" where
  "groups (c0 # c1 # c2 # c3 # rest) =
     (if c0 = CHR '','' \<and> is_digit c1 \<and> is_digit c2 \<and> is_digit c3
      then c0 # c1 # c2 # c3 # groups rest else [])"
| "groups s = []"

text \<open>\<open>(\d{1,3}(?:,\d{3})*\.\d{2})\<close>: three leading digits are tried first, then two, then one.\<close>

definition leading :: "nat \<Rightarrow> string \<Rightarrow> string option" where
  "leading k s =
     (if k \<le> length s \<and> list_all is_digit (take k s)
      then map_option (\<lambda>t. take k s @ t) (groups_then_cents (drop k s)) else None)"

definition p_grouped_cents :: "string \<Rightarrow> string option" where
  "p_grouped_cents s =
     (case leading 3 s of
        Some g \<Rightarrow> Some g
      | None \<Rightarrow> (case leading 2 s of Some g \<Rightarrow> Some g | None \<Rightarrow> leading 1 s))"

text \<open>\<open>(\d{1,3}(?:,\d{3})*)\<close>\<close>

definition p_grouped :: "string \<Rightarrow> string option" where
  "p_grouped s =
     (let ds = take 3 (takeWhile is_digit s) in
      if ds = [] then None else Some (ds @ groups (drop (length ds) s)))"

text \<open>\<open>(\d+\.\d{2})\<close>\<close>

definition p_plain_cents :: "string \<Rightarrow> string option" where
  "p_plain_cents s =
     (let ds = takeWhile is_digit s in
      if ds = [] then None else map_option (\<lambda>t. ds @ t) (cents (dropWhile is_digit s)))"

text \<open>\<open>(\d+)\<close>\<close>

definition p_plain :: "string \<Rightarrow> string option" where
  "p_plain s = (let ds = takeWhile is_digit s in if ds = [] then None else Some ds)"

definition price_patterns :: "(string \<Rightarrow> string option) list" where
  "price_patterns = [p_grouped_cents, p_grouped, p_plain_cents, p_plain]"

text \<open>
  \<open>Decimal(price_str)\<close> on a text of digits with at most one point, which is all the
  patterns produce; any other text is \<open>None\<close> here (\<open>InvalidOperation\<close>).
\<close>

definition digit_value :: "char \<Rightarrow> rat" where
  "digit_value c = of_nat (of_char c - 48)"

definition number_of_digits :: "string \<Rightarrow> rat" where
  "number_of_digits ds = foldl (\<lambda>n c. 10 * n + digit_value c) 0 ds"

definition decimal_of_string :: "string \<Rightarrow> decimal option" where
  "decimal_of_string s =
     (let ip = takeWhile is_digit s; r = dropWhile is_digit s in
      case r of
        [] \<Rightarrow> if ip = [] then None else Some (number_of_digits ip)
      | c # fp \<Rightarrow>
          if c = CHR ''.'' \<and> list_all is_digit fp \<and> (ip \<noteq> [] \<or> fp \<noteq> [])
          then Some (number_of_digits (ip @ fp) / 10 ^ length fp)
          else None)"

text \<open>The loop over the patterns: a match whose conversion fails moves on to the next.\<close>

fun try_patterns :: "string \<Rightarrow> (string \<Rightarrow> string option) list \<Rightarrow> decimal option" where
  "try_patterns cleaned [] = None"
| "try_patterns cleaned (pattern # rest) =
     (case re_search pattern cleaned of
        Some m \<Rightarrow>
          (case decimal_of_string (filter (\<lambda>c. c \<noteq> CHR '','') m) of
             Some v \<Rightarrow> Some v
           | None \<Rightarrow> try_patterns cleaned rest)
      | None \<Rightarrow> try_patterns cleaned rest)"

definition normalize_price :: "string \<Rightarrow> decimal option" where
  "normalize_price price_text =
     (if price_text = [] then None else try_patterns (cleaned_of price_text) price_patterns)"

section \<open>Vendor scrapers (\<open>BestBuyScraper\<close>)\<close>








section \<open>Example data and auxiliary notions\<close>

definition ex_price :: Price where
  "ex_price = \<lparr> price_id = ''pr1'', product_id = ''p1'', vendor_id = ''v1'', price = 100,
      original_price = Some 125, discount_percentage = Some 20, stock_status = ''in_stock'',
      product_url = ''http://a'', variation_details = JList [], last_updated_at = 1000 \<rparr>"

definition ex_db :: db where
  "ex_db = \<lparr> products = [], prices = [ex_price], price_history = [], categories = [] \<rparr>"

definition ex_sd :: scraped_data where
  "ex_sd = \<lparr> sd_price = Some 90, sd_original_price = None, sd_stock_status = Some ''out_of_stock'',
      sd_product_url = Some ''http://b'', sd_variations = None \<rparr>"

text \<open>
  A stand-in for the three ratios in the examples: 100 for equal strings and 0 otherwise.
  The examples compare only equal names and names without a common character, where the
  library gives these values.
\<close>

definition fuzz_equal :: fuzz where
  "fuzz_equal = \<lparr> ratio = (\<lambda>a b. if a = b then 100 else 0),
                   token_sort_ratio = (\<lambda>a b. if a = b then 100 else 0),
                   partial_ratio = (\<lambda>a b. if a = b then 100 else 0) \<rparr>"

definition headphones :: Product where
  "headphones = \<lparr> p_id = ''p2'', name = ''Sony WH-1000XM4'', brand = ''Sony'', category_id = None,
               image_url = None, popularity_score = 1 \<rparr>"

definition gadget_obs :: ScrapedProduct where
  "gadget_obs = \<lparr> sp_name = ''gadget'', sp_price = 10, sp_original_price = None,
      sp_stock_status = ''in_stock'', sp_product_url = ''http://g'', sp_image_url = None,
      sp_variations = JList [] \<rparr>"


definition sony_price :: Price where
  "sony_price = \<lparr> price_id = ''pr2'', product_id = ''p2'', vendor_id = ''v1'', price = 100,
      original_price = Some 125, discount_percentage = Some 20, stock_status = ''in_stock'',
      product_url = ''http://old'', variation_details = JList [], last_updated_at = 1000 \<rparr>"

definition shop_db :: db where
  "shop_db = \<lparr> products = [headphones], prices = [sony_price], price_history = [], categories = [] \<rparr>"


definition sony_plain_obs :: ScrapedProduct where
  "sony_plain_obs = \<lparr> sp_name = ''Sony WH-1000XM4'', sp_price = 300, sp_original_price = None,
      sp_stock_status = ''out_of_stock'', sp_product_url = ''http://new'', sp_image_url = None,
      sp_variations = JList [[(''color'', ''black'')]] \<rparr>"

definition markup_obs :: ScrapedProduct where
  "markup_obs = \<lparr> sp_name = ''Sony WH-1000XM4'', sp_price = 100, sp_original_price = Some 80,
      sp_stock_status = ''in_stock'', sp_product_url = ''http://new'', sp_image_url = None,
      sp_variations = JList [] \<rparr>"



text \<open>
  \<open>_store_product_data\<close> as the store operation of a run; the identifiers and the clock
  are fixed for the run. With \<open>pipeline_store\<close> every commit succeeds; with
  \<open>rejecting_store\<close> the first commit for the observation named \<open>bad\<close> raises in its
  flush, so that nothing of it is stored.
\<close>

definition pipeline_store ::
  "fuzz \<Rightarrow> int \<Rightarrow> string \<Rightarrow> string \<Rightarrow> datetime \<Rightarrow> string \<Rightarrow> ScrapedProduct \<Rightarrow> db \<Rightarrow> db store_result" where
  "pipeline_store fz th uid nid now vid sp d = Stored (store_product_data fz th uid nid now sp vid d)"

definition rejecting_store ::
  "string \<Rightarrow> fuzz \<Rightarrow> int \<Rightarrow> string \<Rightarrow> string \<Rightarrow> datetime \<Rightarrow> string \<Rightarrow> ScrapedProduct \<Rightarrow> db
     \<Rightarrow> db store_result" where
  "rejecting_store bad fz th uid nid now vid sp d =
     (if sp_name sp = bad then Flush_failed (IOError ''commit'') d
      else Stored (store_product_data fz th uid nid now sp vid d))"

definition usable :: "'d \<Rightarrow> 'd session" where
  "usable d = \<lparr> rows = d, needs_rollback = False \<rparr>"

text \<open>Two queries, each returning one observation.\<close>

definition two_searches :: "string \<Rightarrow> error + ScrapedProduct list" where
  "two_searches query = (if query = ''q1'' then Inr [gadget_obs] else Inr [sony_plain_obs])"

definition ten_queries :: "string list" where
  "ten_queries = [''q1'', ''q2'', ''q3'', ''q4'', ''q5'', ''q6'', ''q7'', ''q8'', ''q9'', ''q10'']"

definition flaky_search :: "string \<Rightarrow> error + ScrapedProduct list" where
  "flaky_search query =
     (if query \<in> set [''q2'', ''q5'', ''q9''] then Inl (IOError query) else Inr [sony_plain_obs])"









text \<open>
  A number written with thousands separators: one to three leading digits \<open>ds\<close> and
  groups \<open>gs\<close> of three digits, each after a comma.
\<close>

definition grouped :: "string \<Rightarrow> string list \<Rightarrow> string" where
  "grouped ds gs = ds @ concat (map (\<lambda>g. CHR '','' # g) gs)"

definition well_grouped :: "string \<Rightarrow> string list \<Rightarrow> bool" where
  "well_grouped ds gs =
     (list_all is_digit ds \<and> 1 \<le> length ds \<and> length ds \<le> 3
      \<and> list_all (\<lambda>g. length g = 3 \<and> list_all is_digit g) gs)"

text \<open>
  For stating the counts of a run: the number of queries whose search raises, and the
  observations returned by the other queries, in order.
\<close>

definition failed_queries :: "(string \<Rightarrow> error + 'sp list) \<Rightarrow> string list \<Rightarrow> nat" where
  "failed_queries search queries = length (filter (\<lambda>q. isl (search q)) queries)"

definition returned :: "(string \<Rightarrow> error + 'sp list) \<Rightarrow> string list \<Rightarrow> 'sp list" where
  "returned search queries = concat (map (\<lambda>q. case search q of Inr xs \<Rightarrow> xs | Inl e \<Rightarrow> []) queries)"

text \<open>A matched text with its thousands separators removed.\<close>

abbreviation (input) nocomma :: "string \<Rightarrow> string" where
  "nocomma m \<equiv> filter (\<lambda>c. c \<noteq> CHR '','') m"




section \<open>Properties of the price service\<close>

lemma find_update_first:
  "find P xs = Some x \<Longrightarrow> P y \<Longrightarrow> find P (update_first P (\<lambda>_. y) xs) = Some y"
  by (induction xs) (auto split: if_splits)

lemma filter_update_first_length:
  "P y \<Longrightarrow> length (filter P (update_first P (\<lambda>_. y) xs)) = length (filter P xs)"
  by (induction xs) auto

lemma find_None_filter: "find P xs = None \<Longrightarrow> filter P xs = []"
  by (induction xs) (auto split: if_splits)

lemma find_Some_filter: "find P xs = Some x \<Longrightarrow> 1 \<le> length (filter P xs)"
  by (induction xs) (auto split: if_splits)

lemma find_Some_pred: "find P xs = Some x \<Longrightarrow> P x"
  by (induction xs) (auto split: if_splits)

lemma find_append_new: "find P xs = None \<Longrightarrow> P y \<Longrightarrow> find P (xs @ [y]) = Some y"
  by (induction xs) (auto split: if_splits)

lemma apply_existing:
  assumes "find (same_pair pid vid) (prices d) = Some ex" and "sd_price sd = Some np"
  shows "update_or_create_price hid nid now pid vid sd d =
     Inr (ex \<lparr> price := np,
                original_price := new_original_price_of sd,
                discount_percentage := service_discount np (new_original_price_of sd),
                stock_status := get_or (sd_stock_status sd) ''in_stock'',
                product_url := get_or (sd_product_url sd) (product_url ex),
                variation_details := get_or (sd_variations sd) (JDict []),
                last_updated_at := now \<rparr>,
          d \<lparr> prices := update_first (same_pair pid vid)
                 (\<lambda>_. ex \<lparr> price := np,
                original_price := new_original_price_of sd,
                discount_percentage := service_discount np (new_original_price_of sd),
                stock_status := get_or (sd_stock_status sd) ''in_stock'',
                product_url := get_or (sd_product_url sd) (product_url ex),
                variation_details := get_or (sd_variations sd) (JDict []),
                last_updated_at := now \<rparr>) (prices d),
               price_history := (if \<bar>price ex - np\<bar> > 1 / 100
                             then price_history d @ [archive_price_to_history hid ex]
                             else price_history d) \<rparr>)"
  using assms by (simp add: update_or_create_price_def Let_def)

lemma apply_absent:
  assumes "find (same_pair pid vid) (prices d) = None" and "sd_price sd = Some np"
  shows "update_or_create_price hid nid now pid vid sd d =
     Inr (\<lparr> price_id = nid, product_id = pid, vendor_id = vid,
                         price = np,
                         original_price = new_original_price_of sd,
                         discount_percentage = service_discount np (new_original_price_of sd),
                         stock_status = get_or (sd_stock_status sd) ''in_stock'',
                         product_url = get_or (sd_product_url sd) [],
                         variation_details = get_or (sd_variations sd) (JDict []),
                         last_updated_at = now \<rparr>,
          d \<lparr> prices := prices d @ [\<lparr> price_id = nid, product_id = pid, vendor_id = vid,
                         price = np,
                         original_price = new_original_price_of sd,
                         discount_percentage = service_discount np (new_original_price_of sd),
                         stock_status = get_or (sd_stock_status sd) ''in_stock'',
                         product_url = get_or (sd_product_url sd) [],
                         variation_details = get_or (sd_variations sd) (JDict []),
                         last_updated_at = now \<rparr>] \<rparr>)"
  using assms by (simp add: update_or_create_price_def Let_def)

text \<open>After any successful apply the pair has a row holding the applied price.\<close>

lemma apply_post:
  assumes "sd_price sd = Some np"
  shows "\<exists>p1 d1. update_or_create_price hid nid now pid vid sd d = Inr (p1, d1)
     \<and> find (same_pair pid vid) (prices d1) = Some p1 \<and> price p1 = np
     \<and> products d1 = products d
     \<and> length (filter (same_pair pid vid) (prices d1)) = max 1 (length (filter (same_pair pid vid) (prices d)))
     \<and> price_history d1 = (case find (same_pair pid vid) (prices d) of None \<Rightarrow> price_history d
           | Some ex \<Rightarrow> if \<bar>price ex - np\<bar> > 1 / 100
                             then price_history d @ [archive_price_to_history hid ex]
                             else price_history d)"
proof (cases "find (same_pair pid vid) (prices d)")
  case None
  show ?thesis
    unfolding apply_absent[OF None assms]
    using None by (simp add: find_append_new same_pair_def find_None_filter)
next
  case (Some ex)
  have sp: "same_pair pid vid ex" using Some by (rule find_Some_pred)
  have m: "max 1 (length (filter (same_pair pid vid) (prices d))) = length (filter (same_pair pid vid) (prices d))"
    using find_Some_filter[OF Some] by simp
  show ?thesis
    unfolding apply_existing[OF Some assms] m
    using Some sp by (simp add: find_update_first filter_update_first_length same_pair_def)
qed


text \<open>
  What \<open>update_or_create_price\<close> writes into a row it finds: the discount is computed
  from the observation alone, and the stock status, URL, variations and timestamp are
  those of the observation (with the defaults of \<open>dict.get\<close> for an absent key).
\<close>

lemma service_overwrites:
  assumes "find (same_pair pid vid) (prices d) = Some ex" and "sd_price sd = Some np"
      and "update_or_create_price hid nid now pid vid sd d = Inr (p, d')"
  shows "discount_percentage p = service_discount np (new_original_price_of sd)
       \<and> stock_status p = get_or (sd_stock_status sd) ''in_stock''
       \<and> product_url p = get_or (sd_product_url sd) (product_url ex)
       \<and> variation_details p = get_or (sd_variations sd) (JDict [])
       \<and> last_updated_at p = now
       \<and> find (same_pair pid vid) (prices d') = Some p"
proof -
  have sp: "same_pair pid vid ex" using assms(1) by (rule find_Some_pred)
  show ?thesis
    using assms(3) sp assms(1)
    unfolding apply_existing[OF assms(1,2)]
    by (auto simp: find_update_first same_pair_def)
qed

text \<open>
  C2: when an apply finds a Price for the (product, vendor) pair, one PriceHistory row is
  added exactly when the new price differs from the stored one by more than 0.01 and none
  otherwise; the row copies the values of the superseded Price and its \<open>recorded_at\<close> is
  that Price's previous \<open>last_updated_at\<close>. Applying the same observation a second time
  adds no PriceHistory row and leaves the number of Price rows of the pair unchanged,
  which is one when the pair had at most one row before.
\<close>

theorem apply_history:
  assumes "sd_price sd = Some np"
  shows "\<exists>p1 d1 p2 d2.
      update_or_create_price hid nid now pid vid sd d = Inr (p1, d1)
    \<and> update_or_create_price hid2 nid2 now2 pid vid sd d1 = Inr (p2, d2)
    \<and> (\<forall>ex. find (same_pair pid vid) (prices d) = Some ex \<longrightarrow>
          price_history d1 =
            (if \<bar>price ex - np\<bar> > 1 / 100
             then price_history d @ [archive_price_to_history hid ex]
             else price_history d)
          \<and> h_price (archive_price_to_history hid ex) = price ex
          \<and> h_original_price (archive_price_to_history hid ex) = original_price ex
          \<and> h_discount_percentage (archive_price_to_history hid ex) = discount_percentage ex
          \<and> h_stock_status (archive_price_to_history hid ex) = stock_status ex
          \<and> h_product_url (archive_price_to_history hid ex) = product_url ex
          \<and> h_variation_details (archive_price_to_history hid ex) = variation_details ex
          \<and> recorded_at (archive_price_to_history hid ex) = last_updated_at ex)
    \<and> price_history d2 = price_history d1
    \<and> length (filter (same_pair pid vid) (prices d2)) = length (filter (same_pair pid vid) (prices d1))
    \<and> (length (filter (same_pair pid vid) (prices d)) \<le> 1 \<longrightarrow>
          length (filter (same_pair pid vid) (prices d2)) = 1)"
proof -
  obtain p1 d1 where
    a1: "update_or_create_price hid nid now pid vid sd d = Inr (p1, d1)" and
    f1: "find (same_pair pid vid) (prices d1) = Some p1" and
    pr1: "price p1 = np" and
    n1: "length (filter (same_pair pid vid) (prices d1)) = max 1 (length (filter (same_pair pid vid) (prices d)))" and
    h1: "price_history d1 = (case find (same_pair pid vid) (prices d) of None \<Rightarrow> price_history d
           | Some ex \<Rightarrow> if \<bar>price ex - np\<bar> > 1 / 100
                             then price_history d @ [archive_price_to_history hid ex]
                             else price_history d)"
    using apply_post[OF assms, of hid nid now pid vid d] by blast
  obtain p2 d2 where
    a2: "update_or_create_price hid2 nid2 now2 pid vid sd d1 = Inr (p2, d2)" and
    n2: "length (filter (same_pair pid vid) (prices d2)) = max 1 (length (filter (same_pair pid vid) (prices d1)))" and
    h2: "price_history d2 = (case find (same_pair pid vid) (prices d1) of None \<Rightarrow> price_history d1
           | Some ex \<Rightarrow> if \<bar>price ex - np\<bar> > 1 / 100
                             then price_history d1 @ [archive_price_to_history hid2 ex]
                             else price_history d1)"
    using apply_post[OF assms, of hid2 nid2 now2 pid vid d1] by blast
  have h2': "price_history d2 = price_history d1"
    using h2 f1 pr1 by simp
  have n2': "length (filter (same_pair pid vid) (prices d2)) = length (filter (same_pair pid vid) (prices d1))"
    using n2 n1 by simp
  have one: "length (filter (same_pair pid vid) (prices d)) \<le> 1 \<longrightarrow>
          length (filter (same_pair pid vid) (prices d2)) = 1"
    using n2' n1 by auto
  have hist: "\<forall>ex. find (same_pair pid vid) (prices d) = Some ex \<longrightarrow>
          price_history d1 =
            (if \<bar>price ex - np\<bar> > 1 / 100
             then price_history d @ [archive_price_to_history hid ex]
             else price_history d)
          \<and> h_price (archive_price_to_history hid ex) = price ex
          \<and> h_original_price (archive_price_to_history hid ex) = original_price ex
          \<and> h_discount_percentage (archive_price_to_history hid ex) = discount_percentage ex
          \<and> h_stock_status (archive_price_to_history hid ex) = stock_status ex
          \<and> h_product_url (archive_price_to_history hid ex) = product_url ex
          \<and> h_variation_details (archive_price_to_history hid ex) = variation_details ex
          \<and> recorded_at (archive_price_to_history hid ex) = last_updated_at ex"
    using h1 by (simp add: archive_price_to_history_def)
  show ?thesis
    using a1 a2 hist h2' n2' one by blast
qed

theorem apply_history_witness:
  "sd_price ex_sd = Some 90
   \<and> find (same_pair ''p1'' ''v1'') (prices ex_db) = Some ex_price
   \<and> \<bar>price ex_price - 90\<bar> > 1 / 100
   \<and> length (filter (same_pair ''p1'' ''v1'') (prices ex_db)) \<le> 1
   \<and> (\<exists>p1 d1 p2 d2.
        update_or_create_price ''h1'' ''n1'' 2000 ''p1'' ''v1'' ex_sd ex_db = Inr (p1, d1)
      \<and> update_or_create_price ''h2'' ''n2'' 3000 ''p1'' ''v1'' ex_sd d1 = Inr (p2, d2)
      \<and> price_history d1 = [archive_price_to_history ''h1'' ex_price]
      \<and> recorded_at (archive_price_to_history ''h1'' ex_price) = 1000
      \<and> price_history d2 = price_history d1
      \<and> length (filter (same_pair ''p1'' ''v1'') (prices d2)) = 1)"
proof -
  have s: "sd_price ex_sd = Some 90" by (simp add: ex_sd_def)
  have f: "find (same_pair ''p1'' ''v1'') (prices ex_db) = Some ex_price"
    by (simp add: ex_db_def ex_price_def same_pair_def)
  have c: "\<bar>price ex_price - 90\<bar> > 1 / 100" by (simp add: ex_price_def)
  have l: "length (filter (same_pair ''p1'' ''v1'') (prices ex_db)) \<le> 1"
    by (simp add: ex_db_def)
  have e: "price_history ex_db = []" by (simp add: ex_db_def)
  have r: "last_updated_at ex_price = 1000" by (simp add: ex_price_def)
  from apply_history[OF s, of "''h1''" "''n1''" 2000 "''p1''" "''v1''" ex_db "''h2''" "''n2''" 3000]
  show ?thesis using s f c l e r by auto
qed

section \<open>Freshness classification\<close>

lemma freshness_status_cases:
  "freshness_status h = ''stale'' \<or> freshness_status h = ''aging'' \<or> freshness_status h = ''fresh''"
  by (simp add: freshness_status_def)

text \<open>
  C8: the age \<open>h\<close> in hours of a Price record is classified \<open>fresh\<close> exactly when
  \<open>h \<le> 12\<close>, \<open>aging\<close> exactly when \<open>12 < h \<le> 24\<close> and \<open>stale\<close> exactly when
  \<open>h > 24\<close>; every entry returned for a record carries that classification of the
  record's age, an age of exactly 24 hours is \<open>aging\<close> and one of exactly 12 hours is
  \<open>fresh\<close>.
\<close>

theorem freshness_classification:
  "(freshness_status h = ''fresh'') = (h \<le> 12)
   \<and> (freshness_status h = ''aging'') = (12 < h \<and> h \<le> 24)
   \<and> (freshness_status h = ''stale'') = (h > 24)
   \<and> fe_freshness_status (freshness_of now p) = freshness_status (hours_old now (last_updated_at p))
   \<and> freshness_status (hours_old (t + 24 * 3600 * 1000000) t) = ''aging''
   \<and> freshness_status (hours_old (t + 12 * 3600 * 1000000) t) = ''fresh''"
  by (simp add: freshness_status_def freshness_of_def hours_old_def)

section \<open>Properties of the matcher\<close>

lemma fold_max_Max: "fold max xs (x::rat) = Max (set (x # xs))"
  by (rule Max.set_eq_fold[symmetric])

lemma composite_score_Max:
  "composite_score fz n kws p = Max (set (scores_for fz n kws p))"
  by (simp add: composite_score_def scores_for_def Let_def fold_max_Max del: set_simps fold_simps)

lemma match_loop_result:
  assumes "match_loop fz th n kws ps (bm, bs) = (bm', bs')"
  shows "(bm' = bm \<and> bs' = bs
            \<and> (\<forall>q \<in> set ps. \<not> (composite_score fz n kws q > bs \<and> composite_score fz n kws q \<ge> of_int th)))
         \<or> (\<exists>p \<in> set ps. bm' = Some p \<and> bs' = composite_score fz n kws p
               \<and> of_int th \<le> composite_score fz n kws p \<and> bs < composite_score fz n kws p
               \<and> (\<forall>q \<in> set ps. composite_score fz n kws q \<le> composite_score fz n kws p))"
  using assms
proof (induction ps arbitrary: bm bs)
  case Nil
  then show ?case by simp
next
  case (Cons a ps)
  let ?s = "composite_score fz n kws a"
  show ?case
  proof (cases "?s > bs \<and> ?s \<ge> of_int th")
    case True
    then have "match_loop fz th n kws ps (Some a, ?s) = (bm', bs')"
      using Cons.prems by (simp add: Let_def)
    from Cons.IH[OF this] True show ?thesis
      by (auto simp: not_less)
  next
    case False
    then have "match_loop fz th n kws ps (bm, bs) = (bm', bs')"
      using Cons.prems by (auto simp add: Let_def split: if_splits)
    from Cons.IH[OF this] False show ?thesis
      by (auto simp: not_less)
  qed
qed














section \<open>Properties of the scraper pipeline\<close>

lemma store_shop_sony_plain:
  "prices (store_product_data fuzz_equal 80 ''u1'' ''n1'' 5000 sony_plain_obs ''v1'' shop_db)
     = [sony_price \<lparr> price := 300, original_price := None, stock_status := ''out_of_stock'',
                       product_url := ''http://new'', last_updated_at := 5000 \<rparr>]"
  by code_simp

lemma store_shop_markup:
  "map discount_percentage
     (prices (store_product_data fuzz_equal 80 ''u1'' ''n1'' 5000 markup_obs ''v1'' shop_db))
     = [Some (-25)]"
  by code_simp

lemma update_first_distinct:
  "distinct (map f xs) \<Longrightarrow>
     update_first (\<lambda>p. f p = k) g xs = map (\<lambda>p. if f p = k then g p else p) xs"
proof (induction xs)
  case Nil
  then show ?case by simp
next
  case (Cons x xs)
  show ?case
  proof (cases "f x = k")
    case True
    then have "\<forall>y \<in> set xs. f y \<noteq> k" using Cons.prems by (auto simp: image_iff)
    then have "map (\<lambda>p. if f p = k then g p else p) xs = xs"
      by (induction xs) auto
    then show ?thesis using True by simp
  next
    case False
    then show ?thesis using Cons by simp
  qed
qed

lemma best_match_in_catalog:
  "best_match_of fz th sp d = Some p \<Longrightarrow> p \<in> set (products d)"
proof -
  assume a: "best_match_of fz th sp d = Some p"
  obtain bm bs where ml:
    "match_loop fz th (sp_name sp) (extract_product_keywords (sp_name sp)) (products d) (None, 0) = (bm, bs)"
    by (cases "match_loop fz th (sp_name sp) (extract_product_keywords (sp_name sp)) (products d) (None, 0)")
  have "bm = Some p" using a ml by (simp add: best_match_of_def)
  then show ?thesis using match_loop_result[OF ml] by auto
qed

lemma find_matching_product_member:
  "find_matching_product fz th uid sp d = (product, d1) \<Longrightarrow> product \<in> set (products d1)"
  by (cases "best_match_of fz th sp d")
     (auto simp: find_matching_product_def create_new_product_def Let_def best_match_in_catalog)

lemma find_matching_product_prices:
  "find_matching_product fz th uid sp d = (product, d1) \<Longrightarrow> prices d1 = prices d"
  by (cases "best_match_of fz th sp d")
     (auto simp: find_matching_product_def create_new_product_def Let_def)

lemma store_products:
  assumes "find_matching_product fz th uid sp d = (product, d1)"
  shows "products (store_product_data fz th uid nid now sp vid d)
           = update_first (\<lambda>p. p_id p = p_id product)
               (\<lambda>p. p \<lparr> popularity_score := popularity_score p + 1 \<rparr>) (products d1)"
  using assms
  by (cases "find (same_pair (p_id product) vid) (prices d1)")
     (simp_all add: store_product_data_def Let_def)

lemma store_price_row:
  assumes "find_matching_product fz th uid sp d = (product, d1)"
  shows "\<exists>row. find (same_pair (p_id product) vid) (prices (store_product_data fz th uid nid now sp vid d)) = Some row
           \<and> price row = sp_price sp \<and> original_price row = sp_original_price sp"
proof (cases "find (same_pair (p_id product) vid) (prices d1)")
  case None
  then show ?thesis using assms
    by (simp add: store_product_data_def Let_def find_append_new same_pair_def)
next
  case (Some ex)
  have sp: "same_pair (p_id product) vid ex" using Some by (rule find_Some_pred)
  show ?thesis using assms Some sp
    by (simp add: store_product_data_def Let_def find_update_first same_pair_def)
qed

text \<open>
  C1 at a failing input: the stored Price has a discount of 20 and the observation has no
  original price. \<open>_store_product_data\<close> leaves the old discount in the updated row, where
  the specification requires null; and an observation whose original price 80 is below
  its price 100 is stored with the discount -25, where null is required as well.
\<close>

theorem store_stale_discount:
  "sp_original_price sony_plain_obs = None
   \<and> map discount_percentage
         (prices (store_product_data fuzz_equal 80 ''u1'' ''n1'' 5000 sony_plain_obs ''v1'' shop_db))
       = [Some 20]
   \<and> map original_price
         (prices (store_product_data fuzz_equal 80 ''u1'' ''n1'' 5000 sony_plain_obs ''v1'' shop_db))
       = [None]
   \<and> map discount_percentage
         (prices (store_product_data fuzz_equal 80 ''u1'' ''n1'' 5000 markup_obs ''v1'' shop_db))
       = [Some (-25)]"
proof -
  have "sp_original_price sony_plain_obs = None" by (simp add: sony_plain_obs_def)
  then show ?thesis by (simp add: store_shop_sony_plain store_shop_markup sony_price_def)
qed

text \<open>
  C5 at a failing input: the update branch of \<open>_store_product_data\<close> writes the stock
  status, the URL and the timestamp of the observation but not its variations: the row
  keeps the variation details it had.
\<close>

theorem store_keeps_variation_details:
  "sp_variations sony_plain_obs = JList [[(''color'', ''black'')]]
   \<and> map variation_details
         (prices (store_product_data fuzz_equal 80 ''u1'' ''n1'' 5000 sony_plain_obs ''v1'' shop_db))
       = [JList []]
   \<and> map stock_status
         (prices (store_product_data fuzz_equal 80 ''u1'' ''n1'' 5000 sony_plain_obs ''v1'' shop_db))
       = [''out_of_stock'']
   \<and> map product_url
         (prices (store_product_data fuzz_equal 80 ''u1'' ''n1'' 5000 sony_plain_obs ''v1'' shop_db))
       = [''http://new'']
   \<and> map last_updated_at
         (prices (store_product_data fuzz_equal 80 ''u1'' ''n1'' 5000 sony_plain_obs ''v1'' shop_db))
       = [5000]"
proof -
  have "sp_variations sony_plain_obs = JList [[(''color'', ''black'')]]"
    by (simp add: sony_plain_obs_def)
  then show ?thesis by (simp add: store_shop_sony_plain sony_price_def)
qed

text \<open>
  C6, amended: \<open>_store_product_data\<close> adds exactly 1 to the popularity score of the
  product the matcher returned (a product it has just created starts at 1) and leaves
  every other product as it was, whether the Price row was updated or inserted;
  \<open>update_or_create_price\<close> succeeds without changing any Product.
\<close>

theorem store_increments_popularity:
  assumes "distinct (map p_id (products (snd (find_matching_product fz th uid sp d))))"
  shows "products (store_product_data fz th uid nid now sp vid d)
           = map (\<lambda>p. if p_id p = p_id (fst (find_matching_product fz th uid sp d))
                       then p \<lparr> popularity_score := popularity_score p + 1 \<rparr> else p)
                 (products (snd (find_matching_product fz th uid sp d)))
    \<and> fst (find_matching_product fz th uid sp d)
         \<in> set (products (snd (find_matching_product fz th uid sp d)))
    \<and> (sd_price sd = Some np \<longrightarrow>
         (\<exists>p d'. update_or_create_price hid nid' now' pid vid' sd d = Inr (p, d')
                  \<and> products d' = products d))"
proof -
  obtain product d1 where fm: "find_matching_product fz th uid sp d = (product, d1)"
    by (cases "find_matching_product fz th uid sp d")
  have dist: "distinct (map p_id (products d1))" using assms fm by simp
  have a: "products (store_product_data fz th uid nid now sp vid d)
           = map (\<lambda>p. if p_id p = p_id product
                       then p \<lparr> popularity_score := popularity_score p + 1 \<rparr> else p) (products d1)"
    unfolding store_products[OF fm] by (rule update_first_distinct[OF dist])
  have b: "product \<in> set (products d1)" using fm by (rule find_matching_product_member)
  have c: "sd_price sd = Some np \<longrightarrow>
         (\<exists>p d'. update_or_create_price hid nid' now' pid vid' sd d = Inr (p, d')
                  \<and> products d' = products d)"
  proof
    assume s: "sd_price sd = Some np"
    from apply_post[OF s, of hid nid' now' pid vid' d] show
      "\<exists>p d'. update_or_create_price hid nid' now' pid vid' sd d = Inr (p, d') \<and> products d' = products d"
      by blast
  qed
  show ?thesis using a b c by (simp add: fm)
qed

theorem store_increments_popularity_witness:
  "distinct (map p_id (products (snd (find_matching_product fuzz_equal 80 ''u1'' sony_plain_obs shop_db))))
   \<and> sd_price ex_sd = Some 90
   \<and> map popularity_score (products shop_db) = [1]
   \<and> map popularity_score
        (products (store_product_data fuzz_equal 80 ''u1'' ''n1'' 5000 sony_plain_obs ''v1'' shop_db)) = [2]
   \<and> (\<exists>p d'. update_or_create_price ''h1'' ''n2'' 6000 ''p2'' ''v1'' ex_sd shop_db = Inr (p, d')
              \<and> products d' = products shop_db)"
proof -
  have fm: "find_matching_product fuzz_equal 80 ''u1'' sony_plain_obs shop_db = (headphones, shop_db)"
    by code_simp
  have d: "distinct (map p_id (products (snd (find_matching_product fuzz_equal 80 ''u1'' sony_plain_obs shop_db))))"
    unfolding fm by (simp add: shop_db_def)
  have s: "sd_price ex_sd = Some 90" by (simp add: ex_sd_def)
  have p: "map popularity_score (products shop_db) = [1]"
    by (simp add: shop_db_def headphones_def)
  note t = store_increments_popularity[OF d, of "''n1''" 5000 "''v1''" ex_sd 90 "''h1''" "''n2''" 6000 "''p2''" "''v1''",
      unfolded fm fst_conv snd_conv]
  have q: "map popularity_score
        (products (store_product_data fuzz_equal 80 ''u1'' ''n1'' 5000 sony_plain_obs ''v1'' shop_db)) = [2]"
    using t by (simp add: shop_db_def headphones_def)
  show ?thesis using d s p q t by blast
qed

text \<open>
  \<open>update_or_create_price\<close> applied to the stored Price of a product whose popularity
  score is 1: the apply succeeds and the score is still 1.
\<close>

theorem service_popularity_counterexample:
  "map popularity_score (products shop_db) = [1]
   \<and> map_sum id (map popularity_score \<circ> products \<circ> snd)
        (update_or_create_price ''h1'' ''n2'' 6000 ''p2'' ''v1'' ex_sd shop_db) = Inr [1]"
  by (simp add: update_or_create_price_def shop_db_def headphones_def ex_sd_def sony_price_def
        same_pair_def Let_def)


section \<open>Properties of a vendor run\<close>

lemma store_in_session_cases:
  assumes "store_in_session store sp s = (r, s')"
  shows "(needs_rollback s \<longrightarrow> needs_rollback s')
       \<and> (needs_rollback s' \<longrightarrow> needs_rollback s \<or> (\<exists>e d'. store sp (rows s) = Flush_failed e d'))"
  using assms
  by (auto simp: store_in_session_def split: if_splits store_result.splits)

lemma store_loop_counts:
  assumes "store_loop store xs (ps, es, s) = (ps', es', s')"
  shows "ps' + es' = ps + es + length xs \<and> ps \<le> ps' \<and> es \<le> es'
         \<and> (needs_rollback s \<longrightarrow> needs_rollback s')"
  using assms
proof (induction xs arbitrary: ps es s)
  case Nil
  then show ?case by simp
next
  case (Cons x xs)
  obtain r s1 where st: "store_in_session store x s = (r, s1)"
    by (cases "store_in_session store x s")
  have m: "needs_rollback s \<longrightarrow> needs_rollback s1"
    using store_in_session_cases[OF st] by simp
  show ?case
  proof (cases r)
    case (Inl e)
    then have "store_loop store xs (ps, es + 1, s1) = (ps', es', s')"
      using Cons.prems st by simp
    from Cons.IH[OF this] m show ?thesis by simp
  next
    case (Inr u)
    then have "store_loop store xs (ps + 1, es, s1) = (ps', es', s')"
      using Cons.prems st by simp
    from Cons.IH[OF this] m show ?thesis by simp
  qed
qed

text \<open>A store loop without a failed flush leaves the session usable.\<close>

lemma store_loop_usable:
  assumes "\<forall>sp d e d'. store sp d \<noteq> Flush_failed e d'" and "\<not> needs_rollback s"
      and "store_loop store xs (ps, es, s) = (ps', es', s')"
  shows "\<not> needs_rollback s'"
  using assms(2,3)
proof (induction xs arbitrary: ps es s)
  case Nil
  then show ?case by simp
next
  case (Cons x xs)
  obtain r s1 where st: "store_in_session store x s = (r, s1)"
    by (cases "store_in_session store x s")
  have u: "\<not> needs_rollback s1"
    using store_in_session_cases[OF st] Cons.prems(1) assms(1) by blast
  show ?case
  proof (cases r)
    case (Inl e)
    then have "store_loop store xs (ps, es + 1, s1) = (ps', es', s')"
      using Cons.prems st by simp
    from Cons.IH[OF u this] show ?thesis .
  next
    case (Inr v)
    then have "store_loop store xs (ps + 1, es, s1) = (ps', es', s')"
      using Cons.prems st by simp
    from Cons.IH[OF u this] show ?thesis .
  qed
qed

text \<open>
  When no flush fails, the run returns its counts on a usable session: every failed
  query is one error, and the two counts together account for the failed queries and
  the returned observations.
\<close>

lemma run_usable:
  assumes "\<forall>sp d e d'. store sp d \<noteq> Flush_failed e d'" and "\<not> needs_rollback s"
  shows "\<exists>ps' es' s'. run_vendor_scraper search store queries (ps, es, s) = Inr (ps', es', s')
           \<and> \<not> needs_rollback s'
           \<and> ps' + es' = ps + es + failed_queries search queries + length (returned search queries)
           \<and> ps \<le> ps' \<and> es + failed_queries search queries \<le> es'"
  using assms(2)
proof (induction queries arbitrary: ps es s)
  case Nil
  then show ?case by (simp add: failed_queries_def returned_def)
next
  case (Cons q qs)
  show ?case
  proof (cases "search q")
    case (Inl e)
    from Cons.IH[OF Cons.prems, of ps "es + 1"] obtain ps' es' s' where
      r: "run_vendor_scraper search store qs (ps, es + 1, s) = Inr (ps', es', s')"
         "\<not> needs_rollback s'"
         "ps' + es' = ps + (es + 1) + failed_queries search qs + length (returned search qs)"
         "ps \<le> ps'" "es + 1 + failed_queries search qs \<le> es'"
      by blast
    have "run_vendor_scraper search store (q # qs) (ps, es, s) = Inr (ps', es', s')"
      using Cons.prems Inl r(1) by simp
    then show ?thesis using r Inl by (simp add: failed_queries_def returned_def)
  next
    case (Inr xs)
    obtain p1 e1 s1 where sl: "store_loop store xs (ps, es, s) = (p1, e1, s1)"
      by (cases "store_loop store xs (ps, es, s)") auto
    have u: "\<not> needs_rollback s1"
      using store_loop_usable[OF assms(1) Cons.prems sl] .
    from Cons.IH[OF u, of p1 e1] obtain ps' es' s' where
      r: "run_vendor_scraper search store qs (p1, e1, s1) = Inr (ps', es', s')"
         "\<not> needs_rollback s'"
         "ps' + es' = p1 + e1 + failed_queries search qs + length (returned search qs)"
         "p1 \<le> ps'" "e1 + failed_queries search qs \<le> es'"
      by blast
    have "run_vendor_scraper search store (q # qs) (ps, es, s) = Inr (ps', es', s')"
      using Cons.prems Inr sl r(1) by simp
    then show ?thesis using r Inr store_loop_counts[OF sl]
      by (simp add: failed_queries_def returned_def)
  qed
qed

lemma run_one_vendor_usable:
  assumes "\<forall>sp d e d'. store sp d \<noteq> Flush_failed e d'" and "\<not> needs_rollback s"
  shows "\<exists>ps es r. escaped (run_one_vendor search store queries vid t0 t1 s) = None
           \<and> stored_run (run_one_vendor search store queries vid t0 t1 s) = Some r
           \<and> status r = ''completed''
           \<and> run_products_scraped r = ps \<and> errors_count r = es
           \<and> ps + es = failed_queries search queries + length (returned search queries)
           \<and> failed_queries search queries \<le> es"
proof -
  from run_usable[OF assms, of search queries 0 0] obtain ps es s' where
    r: "run_vendor_scraper search store queries (0, 0, s) = Inr (ps, es, s')"
       "\<not> needs_rollback s'"
       "ps + es = failed_queries search queries + length (returned search queries)"
       "failed_queries search queries \<le> es"
    by auto
  have "run_one_vendor search store queries vid t0 t1 s
          = \<lparr> escaped = None,
              stored_run = Some (complete_scraper_run (start_scraper_run vid t0) (ps, es) t1),
              session_after = s' \<rparr>"
    using assms(2) r(1,2) by (simp add: run_one_vendor_def)
  then show ?thesis using r(3,4)
    by (simp add: complete_scraper_run_def start_scraper_run_def)
qed

text \<open>Three failing queries of ten, with stores that commit: the spec's scenario.\<close>

lemma flaky_run:
  "\<exists>r. stored_run (run_one_vendor flaky_search (pipeline_store fuzz_equal 80 ''u1'' ''n1'' 5000 ''v1'')
             ten_queries ''v1'' 1000 9000 (usable shop_db)) = Some r
       \<and> status r = ''completed'' \<and> errors_count r = 3 \<and> run_products_scraped r = 7"
proof -
  let ?store = "pipeline_store fuzz_equal 80 ''u1'' ''n1'' 5000 ''v1''"
  have h: "\<forall>sp d e d'. ?store sp d \<noteq> Flush_failed e d'" by (simp add: pipeline_store_def)
  have u: "\<not> needs_rollback (usable shop_db)" by (simp add: usable_def)
  have f: "failed_queries flaky_search ten_queries = 3"
    by (simp add: failed_queries_def flaky_search_def ten_queries_def)
  have n: "length (returned flaky_search ten_queries) = 7"
    by (simp add: returned_def flaky_search_def ten_queries_def)
  from run_usable[OF h u, of flaky_search ten_queries 0 0] obtain ps es s' where
    r: "run_vendor_scraper flaky_search ?store ten_queries (0, 0, usable shop_db) = Inr (ps, es, s')"
       "\<not> needs_rollback s'" "ps + es = 10" "3 \<le> es"
    unfolding f n by auto
  have noraise: "\<And>xs p e s. \<not> needs_rollback s \<Longrightarrow>
      \<exists>s1. store_loop ?store xs (p, e, s) = (p + length xs, e, s1) \<and> \<not> needs_rollback s1"
  proof -
    fix xs :: "ScrapedProduct list" and p e :: nat and s :: "db session"
    assume "\<not> needs_rollback s"
    then show "\<exists>s1. store_loop ?store xs (p, e, s) = (p + length xs, e, s1) \<and> \<not> needs_rollback s1"
    proof (induction xs arbitrary: p s)
      case Nil
      then show ?case by simp
    next
      case (Cons x xs)
      have "store_in_session ?store x s
              = (Inr (), s \<lparr> rows := store_product_data fuzz_equal 80 ''u1'' ''n1'' 5000 x ''v1'' (rows s) \<rparr>)"
        using Cons.prems by (simp add: store_in_session_def pipeline_store_def)
      moreover have "\<not> needs_rollback (s \<lparr> rows := store_product_data fuzz_equal 80 ''u1'' ''n1'' 5000 x ''v1'' (rows s) \<rparr>)"
        using Cons.prems by simp
      ultimately show ?case using Cons.IH[of _ "Suc p"] by simp
    qed
  qed
  have es: "\<And>qs p e s. \<not> needs_rollback s \<Longrightarrow>
      \<exists>p' s1. run_vendor_scraper flaky_search ?store qs (p, e, s) = Inr (p', e + failed_queries flaky_search qs, s1)"
  proof -
    fix qs :: "string list" and p e :: nat and s :: "db session"
    assume "\<not> needs_rollback s"
    then show "\<exists>p' s1. run_vendor_scraper flaky_search ?store qs (p, e, s) = Inr (p', e + failed_queries flaky_search qs, s1)"
    proof (induction qs arbitrary: p e s)
      case Nil
      then show ?case by (simp add: failed_queries_def)
    next
      case (Cons q qs)
      show ?case
      proof (cases "flaky_search q")
        case (Inl x)
        then show ?thesis using Cons.prems Cons.IH[OF Cons.prems, of p "e + 1"]
          by (simp add: failed_queries_def)
      next
        case (Inr xs)
        from noraise[OF Cons.prems, of xs p e] obtain s1 where
          s1: "store_loop ?store xs (p, e, s) = (p + length xs, e, s1)" "\<not> needs_rollback s1"
          by blast
        show ?thesis using Cons.prems Inr s1 Cons.IH[OF s1(2), of "p + length xs" e]
          by (simp add: failed_queries_def)
      qed
    qed
  qed
  from es[OF u, of ten_queries 0 0] r(1) have "es = 3" using f by auto
  then have "ps = 7" using r(3) by simp
  have "run_one_vendor flaky_search ?store ten_queries ''v1'' 1000 9000 (usable shop_db)
          = \<lparr> escaped = None,
              stored_run = Some (complete_scraper_run (start_scraper_run ''v1'' 1000) (ps, es) 9000),
              session_after = s' \<rparr>"
    using u r(1,2) by (simp add: run_one_vendor_def)
  then show ?thesis using \<open>es = 3\<close> \<open>ps = 7\<close>
    by (simp add: complete_scraper_run_def start_scraper_run_def)
qed

text \<open>
  C4 at a failing input: two queries, each returning one observation, and a database
  that rejects the first commit for the first observation, the one of its new product.
  The store handler counts the error without a rollback; the second query raises out of
  \<open>_run_vendor_scraper\<close>, the
  exception leaves \<open>run_all_scrapers\<close> and the ScraperRun row stays as it was started,
  with status \<open>running\<close> and no counts, where the specification requires status
  \<open>completed\<close> with one error. With the first query alone the loop returns its counts,
  but the row still cannot be completed.
\<close>

theorem run_crashes_after_failed_commit:
  "run_vendor_scraper two_searches (rejecting_store ''gadget'' fuzz_equal 80 ''u1'' ''n1'' 5000 ''v1'')
       [''q1'', ''q2''] (0, 0, usable shop_db)
     = Inl (PendingRollbackError, \<lparr> rows = shop_db, needs_rollback = True \<rparr>)
   \<and> run_one_vendor two_searches (rejecting_store ''gadget'' fuzz_equal 80 ''u1'' ''n1'' 5000 ''v1'')
        [''q1'', ''q2''] ''v1'' 1000 9000 (usable shop_db)
     = \<lparr> escaped = Some PendingRollbackError,
         stored_run = Some (start_scraper_run ''v1'' 1000),
         session_after = \<lparr> rows = shop_db, needs_rollback = True \<rparr> \<rparr>
   \<and> status (start_scraper_run ''v1'' 1000) = ''running''
   \<and> errors_count (start_scraper_run ''v1'' 1000) = 0
   \<and> run_vendor_scraper two_searches (rejecting_store ''gadget'' fuzz_equal 80 ''u1'' ''n1'' 5000 ''v1'')
        [''q1''] (0, 0, usable shop_db)
     = Inr (0, 1, \<lparr> rows = shop_db, needs_rollback = True \<rparr>)
   \<and> run_one_vendor two_searches (rejecting_store ''gadget'' fuzz_equal 80 ''u1'' ''n1'' 5000 ''v1'')
        [''q1''] ''v1'' 1000 9000 (usable shop_db)
     = \<lparr> escaped = Some PendingRollbackError,
         stored_run = Some (start_scraper_run ''v1'' 1000),
         session_after = \<lparr> rows = shop_db, needs_rollback = True \<rparr> \<rparr>"
proof -
  let ?store = "rejecting_store ''gadget'' fuzz_equal 80 ''u1'' ''n1'' 5000 ''v1''"
  have st: "store_in_session ?store gadget_obs (usable shop_db)
              = (Inl (IOError ''commit''), \<lparr> rows = shop_db, needs_rollback = True \<rparr>)"
    by (simp add: store_in_session_def rejecting_store_def gadget_obs_def usable_def)
  have q1: "two_searches ''q1'' = Inr [gadget_obs]" by (simp add: two_searches_def)
  have u: "\<not> needs_rollback (usable shop_db)" by (simp add: usable_def)
  have one: "run_vendor_scraper two_searches ?store [''q1''] (0, 0, usable shop_db)
       = Inr (0, 1, \<lparr> rows = shop_db, needs_rollback = True \<rparr>)"
    using u by (simp add: q1 st)
  have two: "run_vendor_scraper two_searches ?store [''q1'', ''q2''] (0, 0, usable shop_db)
       = Inl (PendingRollbackError, \<lparr> rows = shop_db, needs_rollback = True \<rparr>)"
    using u by (simp add: q1 st)
  have r2: "run_one_vendor two_searches ?store [''q1'', ''q2''] ''v1'' 1000 9000 (usable shop_db)
     = \<lparr> escaped = Some PendingRollbackError,
         stored_run = Some (start_scraper_run ''v1'' 1000),
         session_after = \<lparr> rows = shop_db, needs_rollback = True \<rparr> \<rparr>"
    using u by (simp add: run_one_vendor_def two del: run_vendor_scraper.simps)
  have r1: "run_one_vendor two_searches ?store [''q1''] ''v1'' 1000 9000 (usable shop_db)
     = \<lparr> escaped = Some PendingRollbackError,
         stored_run = Some (start_scraper_run ''v1'' 1000),
         session_after = \<lparr> rows = shop_db, needs_rollback = True \<rparr> \<rparr>"
    using u by (simp add: run_one_vendor_def one del: run_vendor_scraper.simps)
  have s1: "status (start_scraper_run ''v1'' 1000) = ''running''"
    by (simp add: start_scraper_run_def)
  have s2: "errors_count (start_scraper_run ''v1'' 1000) = 0"
    by (simp add: start_scraper_run_def)
  show ?thesis
    using two r2 s1 s2 one r1 by (intro conjI)
qed


section \<open>Properties of the price text\<close>

lemma digit_not_space: "is_digit c \<Longrightarrow> \<not> is_space c"
  by (auto simp: is_digit_def is_space_def)

lemma digit_not_comma: "is_digit c \<Longrightarrow> c \<noteq> CHR '',''"
  by (auto simp: is_digit_def)

lemma digit_not_point: "is_digit c \<Longrightarrow> c \<noteq> CHR ''.''"
  by (auto simp: is_digit_def)

lemma dropWhile_keeps:
  "x \<in> set xs \<Longrightarrow> \<not> P x \<Longrightarrow> x \<in> set (dropWhile P xs)"
  by (induction xs) auto

lemma strip_digits: "list_ex is_digit (strip s) = list_ex is_digit s"
proof -
  have "\<And>c. is_digit c \<Longrightarrow> c \<in> set s \<Longrightarrow> c \<in> set (strip s)"
    unfolding strip_def
    by (simp add: dropWhile_keeps digit_not_space)
  moreover have "set (strip s) \<subseteq> set s"
    unfolding strip_def
    by (metis set_dropWhileD set_rev subsetI)
  ultimately show ?thesis
    by (auto simp: list_ex_iff)
qed

lemma cleaned_digits: "list_ex is_digit (cleaned_of s) = list_ex is_digit s"
  using strip_digits[of s] by (auto simp: cleaned_of_def list_ex_iff)

lemma digit_value_nonneg: "0 \<le> digit_value c"
  by (simp add: digit_value_def)

lemma foldl_digits_nonneg:
  "0 \<le> n \<Longrightarrow> 0 \<le> foldl (\<lambda>n c. 10 * n + digit_value c) n ds"
  by (induction ds arbitrary: n) (simp_all add: digit_value_nonneg)

lemma number_of_digits_nonneg: "0 \<le> number_of_digits ds"
  by (simp add: number_of_digits_def foldl_digits_nonneg)

lemma decimal_of_digits:
  assumes "list_all is_digit ds" and "ds \<noteq> []"
  shows "decimal_of_string ds = Some (number_of_digits ds)"
proof -
  have tw: "takeWhile is_digit ds = ds" and dw: "dropWhile is_digit ds = []"
    using assms(1) by (simp_all add: list_all_iff)
  show ?thesis using assms(2) unfolding decimal_of_string_def Let_def tw dw by simp
qed

lemma decimal_of_digits_point:
  assumes "list_all is_digit ds" and "list_all is_digit fs" and "ds \<noteq> []"
  shows "decimal_of_string (ds @ CHR ''.'' # fs) = Some (number_of_digits (ds @ fs) / 10 ^ length fs)"
proof -
  have np: "\<not> is_digit CHR ''.''" by (simp add: is_digit_def)
  have tw: "takeWhile is_digit (ds @ CHR ''.'' # fs) = ds"
    using assms(1) np by (simp add: takeWhile_append2 list_all_iff)
  have dw: "dropWhile is_digit (ds @ CHR ''.'' # fs) = CHR ''.'' # fs"
    using assms(1) np by (simp add: dropWhile_append2 list_all_iff)
  show ?thesis using assms unfolding decimal_of_string_def Let_def tw dw by simp
qed

lemma groups_digits: "list_all is_digit (nocomma (groups s))"
  by (induction s rule: groups.induct) (auto simp: digit_not_comma)

lemma cents_Some:
  "cents s = Some t \<Longrightarrow> \<exists>c1 c2. t = [CHR ''.'', c1, c2] \<and> is_digit c1 \<and> is_digit c2"
  by (auto simp: cents_def split: list.splits if_splits)

lemma groups_then_cents_Some:
  "groups_then_cents s = Some t \<Longrightarrow>
     \<exists>ds c1 c2. nocomma t = ds @ [CHR ''.'', c1, c2] \<and> list_all is_digit ds \<and> is_digit c1 \<and> is_digit c2"
proof (induction s arbitrary: t rule: groups_then_cents.induct)
  case (1 c0 c1 c2 c3 rest)
  show ?case
  proof (cases "c0 = CHR '','' \<and> is_digit c1 \<and> is_digit c2 \<and> is_digit c3")
    case True
    show ?thesis
    proof (cases "groups_then_cents rest")
      case None
      then have "cents (c0 # c1 # c2 # c3 # rest) = Some t" using "1.prems" True by simp
      then show ?thesis using True by (simp add: cents_def)
    next
      case (Some u)
      then have t: "t = c0 # c1 # c2 # c3 # u" using "1.prems" True by simp
      from "1.IH"[OF True Some] obtain ds a b where
        u: "nocomma u = ds @ [CHR ''.'', a, b]" "list_all is_digit ds" "is_digit a" "is_digit b"
        by blast
      have "nocomma t = (c1 # c2 # c3 # ds) @ [CHR ''.'', a, b]"
        using t u True by (simp add: digit_not_comma)
      moreover have "list_all is_digit (c1 # c2 # c3 # ds)" using True u by simp
      ultimately show ?thesis using u by blast
    qed
  next
    case False
    then have "cents (c0 # c1 # c2 # c3 # rest) = Some t" using "1.prems" by auto
    from cents_Some[OF this] show ?thesis by (auto simp: digit_not_comma intro: exI[of _ "[]"])
  qed
qed (auto simp: cents_def digit_not_comma split: if_splits)

lemma nocomma_digits: "list_all is_digit ds \<Longrightarrow> nocomma ds = ds"
  by (induction ds) (auto simp: digit_not_comma)

lemma leading_Some:
  assumes "leading k s = Some g" and "1 \<le> k"
  shows "\<exists>ds c1 c2. nocomma g = ds @ [CHR ''.'', c1, c2] \<and> list_all is_digit ds \<and> ds \<noteq> []
            \<and> is_digit c1 \<and> is_digit c2"
proof -
  from assms(1) obtain t where
    k: "k \<le> length s" and d: "list_all is_digit (take k s)" and
    t: "groups_then_cents (drop k s) = Some t" and g: "g = take k s @ t"
    by (auto simp: leading_def split: if_splits)
  from groups_then_cents_Some[OF t] obtain ds c1 c2 where
    u: "nocomma t = ds @ [CHR ''.'', c1, c2]" "list_all is_digit ds" "is_digit c1" "is_digit c2"
    by blast
  have ne: "take k s \<noteq> []" using k assms(2) by auto
  have "nocomma g = (take k s @ ds) @ [CHR ''.'', c1, c2]"
    using g u(1) nocomma_digits[OF d] by simp
  moreover have "list_all is_digit (take k s @ ds)" using d u(2) by simp
  moreover have "take k s @ ds \<noteq> []" using ne by simp
  ultimately show ?thesis using u(3,4) by blast
qed

lemma p_grouped_cents_Some:
  assumes "p_grouped_cents s = Some g"
  shows "\<exists>v. decimal_of_string (nocomma g) = Some v \<and> 0 \<le> v"
proof -
  from assms have "leading 3 s = Some g \<or> leading 2 s = Some g \<or> leading 1 s = Some g"
    by (simp add: p_grouped_cents_def split: option.splits)
  then obtain k where k: "leading k s = Some g" "1 \<le> k"
    by (elim disjE) (rule that, assumption, simp)+
  from leading_Some[OF k] obtain ds c1 c2 where
    u: "nocomma g = ds @ [CHR ''.'', c1, c2]" "list_all is_digit ds" "ds \<noteq> []"
       "is_digit c1" "is_digit c2"
    by blast
  have fs: "list_all is_digit [c1, c2]" using u(4,5) by simp
  have e: "decimal_of_string (nocomma g)
          = Some (number_of_digits (ds @ [c1, c2]) / 10 ^ length [c1, c2])"
    unfolding u(1) using decimal_of_digits_point[OF u(2) fs u(3)] by simp
  have "0 \<le> number_of_digits (ds @ [c1, c2]) / 10 ^ length [c1, c2]"
    using number_of_digits_nonneg[of "ds @ [c1, c2]"] by simp
  with e show ?thesis by blast
qed

lemma p_grouped_Some:
  assumes "p_grouped s = Some g"
  shows "\<exists>v. decimal_of_string (nocomma g) = Some v \<and> 0 \<le> v"
proof -
  let ?ds = "take 3 (takeWhile is_digit s)"
  from assms have ne: "?ds \<noteq> []" and g: "g = ?ds @ groups (drop (length ?ds) s)"
    by (auto simp: p_grouped_def Let_def split: if_splits)
  have d: "list_all is_digit ?ds"
    by (metis in_set_takeD list_all_iff set_takeWhileD)
  have l1: "nocomma g = ?ds @ nocomma (groups (drop (length ?ds) s))"
    using g nocomma_digits[OF d] by simp
  have l2: "list_all is_digit (?ds @ nocomma (groups (drop (length ?ds) s)))"
    using d groups_digits by simp
  have l3: "?ds @ nocomma (groups (drop (length ?ds) s)) \<noteq> []" using ne by simp
  have "decimal_of_string (nocomma g) = Some (number_of_digits (nocomma g))"
    unfolding l1 by (rule decimal_of_digits[OF l2 l3])
  then show ?thesis using number_of_digits_nonneg by blast
qed

lemma re_search_Some: "re_search m s = Some g \<Longrightarrow> \<exists>t. m t = Some g"
  by (induction s) (auto split: option.splits)

lemma p_grouped_head: "(p_grouped (c # cs) = None) = (\<not> is_digit c)"
  by (simp add: p_grouped_def Let_def)

lemma re_search_p_grouped_None:
  "(re_search p_grouped s = None) = (\<not> list_ex is_digit s)"
proof (induction s)
  case Nil
  then show ?case by simp
next
  case (Cons c cs)
  show ?case
  proof (cases "is_digit c")
    case True
    then have "p_grouped (c # cs) \<noteq> None" by (simp add: p_grouped_head)
    then show ?thesis using True by (auto split: option.splits)
  next
    case False
    then have "p_grouped (c # cs) = None" by (simp add: p_grouped_head)
    then show ?thesis using False Cons by simp
  qed
qed

lemma leading_head: "\<not> is_digit c \<Longrightarrow> 1 \<le> k \<Longrightarrow> leading k (c # cs) = None"
  by (cases k) (auto simp: leading_def)

lemma no_digit_no_match:
  assumes "\<not> list_ex is_digit s"
  shows "re_search p_grouped_cents s = None"
    and "re_search p_plain_cents s = None"
    and "re_search p_plain s = None"
  using assms
  by (induction s)
     (simp_all add: p_grouped_cents_def leading_head p_plain_cents_def p_plain_def Let_def)

lemma try_patterns_digit:
  assumes "list_ex is_digit cl"
  shows "try_patterns cl price_patterns =
           (case re_search p_grouped_cents cl of
              Some m \<Rightarrow> decimal_of_string (filter (\<lambda>c. c \<noteq> CHR '','') m)
            | None \<Rightarrow>
                (case re_search p_grouped cl of
                   Some m \<Rightarrow> decimal_of_string (filter (\<lambda>c. c \<noteq> CHR '','') m)
                 | None \<Rightarrow> None))
         \<and> (\<exists>v. try_patterns cl price_patterns = Some v \<and> 0 \<le> v)"
proof (cases "re_search p_grouped_cents cl")
  case (Some m)
  from re_search_Some[OF Some] obtain t where "p_grouped_cents t = Some m" by blast
  from p_grouped_cents_Some[OF this] obtain v where
    v: "decimal_of_string (filter (\<lambda>c. c \<noteq> CHR '','') m) = Some v" "0 \<le> v" by blast
  show ?thesis using Some v by (simp add: price_patterns_def)
next
  case None
  from assms have "re_search p_grouped cl \<noteq> None" by (simp add: re_search_p_grouped_None)
  then obtain m where m: "re_search p_grouped cl = Some m" by blast
  from re_search_Some[OF m] obtain t where "p_grouped t = Some m" by blast
  from p_grouped_Some[OF this] obtain v where
    v: "decimal_of_string (filter (\<lambda>c. c \<noteq> CHR '','') m) = Some v" "0 \<le> v" by blast
  show ?thesis using None m v by (simp add: price_patterns_def)
qed

lemma try_patterns_no_digit:
  assumes "\<not> list_ex is_digit cl"
  shows "try_patterns cl price_patterns = None"
proof -
  have g: "re_search p_grouped cl = None"
    using assms by (simp add: re_search_p_grouped_None)
  show ?thesis
    by (simp add: price_patterns_def no_digit_no_match[OF assms] g)
qed

lemma filter_dropWhile_disjoint:
  "(\<And>c. P c \<Longrightarrow> \<not> Q c) \<Longrightarrow> filter Q (dropWhile P xs) = filter Q xs"
  by (induction xs) auto

lemma cleaned_of_filter:
  "cleaned_of s = filter (\<lambda>c. is_digit c \<or> c = CHR ''.'' \<or> c = CHR '','') s"
proof -
  let ?Q = "\<lambda>c. is_digit c \<or> c = CHR ''.'' \<or> c = CHR '',''"
  have d: "\<And>c. is_space c \<Longrightarrow> \<not> ?Q c"
    by (auto simp: is_space_def is_digit_def)
  have "filter ?Q (strip s) = rev (filter ?Q (dropWhile is_space (rev (dropWhile is_space s))))"
    by (simp add: strip_def rev_filter)
  also have "\<dots> = rev (filter ?Q (rev (dropWhile is_space s)))"
    using filter_dropWhile_disjoint[of is_space ?Q, OF d] by simp
  also have "\<dots> = filter ?Q (dropWhile is_space s)"
    by (simp add: rev_filter)
  also have "\<dots> = filter ?Q s"
    using filter_dropWhile_disjoint[of is_space ?Q, OF d] by simp
  finally show ?thesis by (simp add: cleaned_of_def)
qed

lemma three_digits:
  assumes "length g = 3" and "list_all is_digit g"
  obtains a b c where "g = [a, b, c]" "is_digit a" "is_digit b" "is_digit c"
proof -
  from assms(1) obtain a b c where "g = [a, b, c]"
    by (cases g; cases "tl g"; cases "tl (tl g)") auto
  with assms(2) that show ?thesis by simp
qed

lemma groups_of_groups:
  "list_all (\<lambda>g. length g = 3 \<and> list_all is_digit g) gs \<Longrightarrow>
     groups (concat (map (\<lambda>g. CHR '','' # g) gs)) = concat (map (\<lambda>g. CHR '','' # g) gs)"
proof (induction gs)
  case Nil
  then show ?case by simp
next
  case (Cons g gs)
  then obtain a b c where g: "g = [a, b, c]" "is_digit a" "is_digit b" "is_digit c"
    using three_digits[of g] by auto
  show ?case using Cons g by simp
qed

lemma groups_then_cents_of_groups:
  "list_all (\<lambda>g. length g = 3 \<and> list_all is_digit g) gs \<Longrightarrow> is_digit c1 \<Longrightarrow> is_digit c2 \<Longrightarrow>
     groups_then_cents (concat (map (\<lambda>g. CHR '','' # g) gs) @ [CHR ''.'', c1, c2])
       = Some (concat (map (\<lambda>g. CHR '','' # g) gs) @ [CHR ''.'', c1, c2])"
proof (induction gs)
  case Nil
  then show ?case by (simp add: cents_def)
next
  case (Cons g gs)
  then obtain a b c where g: "g = [a, b, c]" "is_digit a" "is_digit b" "is_digit c"
    using three_digits[of g] by auto
  show ?case using Cons g by simp
qed

lemma nocomma_of_groups:
  "list_all (\<lambda>g. length g = 3 \<and> list_all is_digit g) gs \<Longrightarrow>
     nocomma (concat (map (\<lambda>g. CHR '','' # g) gs)) = concat gs"
  by (induction gs) (auto simp: nocomma_digits)

lemma digits_of_groups:
  "list_all (\<lambda>g. length g = 3 \<and> list_all is_digit g) gs \<Longrightarrow> list_all is_digit (concat gs)"
  by (induction gs) auto

lemma leading_exact:
  assumes "list_all is_digit ds" and "groups_then_cents r = Some r"
  shows "leading (length ds) (ds @ r) = Some (ds @ r)"
  using assms by (simp add: leading_def)

lemma leading_too_long:
  assumes "r \<noteq> []" and "\<not> is_digit (hd r)" and "length ds < k"
  shows "leading k (ds @ r) = None"
proof (cases "k \<le> length (ds @ r)")
  case False
  then show ?thesis by (simp add: leading_def)
next
  case True
  obtain c cs where r: "r = c # cs" using assms(1) by (cases r) auto
  obtain j where k: "k = length ds + Suc j" using assms(3) less_iff_Suc_add by auto
  have "take k (ds @ r) = ds @ c # take j cs" using r k by simp
  then have nd: "\<not> list_all is_digit (take k (ds @ r))" using assms(2) r by simp
  show ?thesis unfolding leading_def by (simp only: nd simp_thms if_False)
qed

lemma p_grouped_cents_exact:
  assumes "list_all is_digit ds" and "1 \<le> length ds" and "length ds \<le> 3"
      and "r \<noteq> []" and "\<not> is_digit (hd r)" and "groups_then_cents r = Some r"
  shows "p_grouped_cents (ds @ r) = Some (ds @ r)"
proof -
  have e: "leading (length ds) (ds @ r) = Some (ds @ r)"
    using leading_exact[OF assms(1,6)] .
  have n: "\<And>k. length ds < k \<Longrightarrow> leading k (ds @ r) = None"
    using leading_too_long[OF assms(4,5)] .
  from assms(2,3) consider "length ds = 1" | "length ds = 2" | "length ds = 3" by linarith
  then show ?thesis
  proof cases
    case 1
    then have "leading 3 (ds @ r) = None" "leading 2 (ds @ r) = None" "leading 1 (ds @ r) = Some (ds @ r)"
      using n[of 3] n[of 2] e by simp_all
    then show ?thesis by (simp add: p_grouped_cents_def)
  next
    case 2
    then have "leading 3 (ds @ r) = None" "leading 2 (ds @ r) = Some (ds @ r)"
      using n[of 3] e by simp_all
    then show ?thesis by (simp add: p_grouped_cents_def)
  next
    case 3
    then have "leading 3 (ds @ r) = Some (ds @ r)" using e by simp
    then show ?thesis by (simp add: p_grouped_cents_def)
  qed
qed

lemma re_search_at_start: "m (c # cs) = Some g \<Longrightarrow> re_search m (c # cs) = Some g"
  by simp

lemma groups_head_not_digit:
  "hd (concat (map (\<lambda>g. CHR '','' # g) gs) @ CHR ''.'' # t) = CHR '','' \<or>
   hd (concat (map (\<lambda>g. CHR '','' # g) gs) @ CHR ''.'' # t) = CHR ''.''"
  by (cases gs) auto

lemma try_patterns_first:
  "re_search p cl = Some m \<Longrightarrow> decimal_of_string (nocomma m) = Some v \<Longrightarrow>
     try_patterns cl (p # rest) = Some v"
  by simp

lemma try_patterns_skip:
  "re_search p cl = None \<Longrightarrow> try_patterns cl (p # rest) = try_patterns cl rest"
  by simp

lemma no_point_in_groups:
  "list_all (\<lambda>g. length g = 3 \<and> list_all is_digit g) gs \<Longrightarrow>
     CHR ''.'' \<notin> set (concat (map (\<lambda>g. CHR '','' # g) gs))"
  using digit_not_point by (induction gs) (auto simp: list_all_iff)

lemma normalize_grouped_cents:
  assumes w: "well_grouped ds gs" and c: "is_digit c1" "is_digit c2"
      and f: "filter (\<lambda>c. is_digit c \<or> c = CHR ''.'' \<or> c = CHR '','') s
                = grouped ds gs @ [CHR ''.'', c1, c2]"
  shows "normalize_price s = Some (number_of_digits (ds @ concat gs @ [c1, c2]) / 100)"
proof -
  let ?G = "concat (map (\<lambda>g. CHR '','' # g) gs)"
  let ?r = "?G @ [CHR ''.'', c1, c2]"
  have gs: "list_all (\<lambda>g. length g = 3 \<and> list_all is_digit g) gs"
    and ds: "list_all is_digit ds" "1 \<le> length ds" "length ds \<le> 3"
    using w by (simp_all add: well_grouped_def)
  have cl: "cleaned_of s = ds @ ?r"
    using f by (simp add: cleaned_of_filter grouped_def)
  have ne: "s \<noteq> []" using f by (auto simp: grouped_def)
  have hd: "\<not> is_digit (hd ?r)"
    using groups_head_not_digit[of gs "[c1, c2]"] by (auto simp: is_digit_def)
  have gtc: "groups_then_cents ?r = Some ?r"
    using groups_then_cents_of_groups[OF gs c] .
  have m: "p_grouped_cents (ds @ ?r) = Some (ds @ ?r)"
    by (rule p_grouped_cents_exact[OF ds _ hd gtc]) simp
  have dne: "ds \<noteq> []" using ds(2) by auto
  then obtain d0 dr where d0: "ds = d0 # dr" by (cases ds) auto
  have rs: "re_search p_grouped_cents (ds @ ?r) = Some (ds @ ?r)"
    using m unfolding d0 by simp
  have nc: "nocomma (ds @ ?r) = (ds @ concat gs) @ CHR ''.'' # [c1, c2]"
    using nocomma_digits[OF ds(1)] nocomma_of_groups[OF gs] digit_not_comma[OF c(1)]
      digit_not_comma[OF c(2)] by simp
  have dd: "list_all is_digit (ds @ concat gs)" using ds(1) digits_of_groups[OF gs] by simp
  have cc: "list_all is_digit [c1, c2]" using c by simp
  have dec: "decimal_of_string (nocomma (ds @ ?r))
               = Some (number_of_digits ((ds @ concat gs) @ [c1, c2]) / 10 ^ length [c1, c2])"
    unfolding nc by (rule decimal_of_digits_point[OF dd cc]) (simp add: dne)
  have "normalize_price s = try_patterns (ds @ ?r) price_patterns"
    using ne by (simp only: normalize_price_def cl if_False)
  also have "\<dots> = Some (number_of_digits ((ds @ concat gs) @ [c1, c2]) / 10 ^ length [c1, c2])"
    unfolding price_patterns_def by (rule try_patterns_first[OF rs dec])
  finally show ?thesis by simp
qed

lemma no_point_groups_then_cents:
  "CHR ''.'' \<notin> set t \<Longrightarrow> groups_then_cents t = None"
  by (induction t rule: groups_then_cents.induct)
     (auto simp: cents_def split: option.splits)

lemma no_point_leading: "CHR ''.'' \<notin> set t \<Longrightarrow> leading k t = None"
proof -
  assume a: "CHR ''.'' \<notin> set t"
  have "CHR ''.'' \<notin> set (drop k t)" using a by (meson in_set_dropD)
  then show ?thesis by (simp add: leading_def no_point_groups_then_cents)
qed

lemma no_point_search: "CHR ''.'' \<notin> set t \<Longrightarrow> re_search p_grouped_cents t = None"
proof (induction t)
  case Nil
  then show ?case by simp
next
  case (Cons c cs)
  have "p_grouped_cents (c # cs) = None"
    using Cons.prems by (simp add: p_grouped_cents_def no_point_leading)
  then show ?case using Cons by simp
qed

lemma takeWhile_digits_then:
  assumes "list_all is_digit ds" and "r = [] \<or> \<not> is_digit (hd r)"
  shows "takeWhile is_digit (ds @ r) = ds"
proof -
  have "takeWhile is_digit r = []" using assms(2) by (cases r) auto
  then show ?thesis using assms(1) by (simp add: takeWhile_append2 list_all_iff)
qed

lemma normalize_grouped:
  assumes w: "well_grouped ds gs"
      and f: "filter (\<lambda>c. is_digit c \<or> c = CHR ''.'' \<or> c = CHR '','') s = grouped ds gs"
  shows "normalize_price s = Some (number_of_digits (ds @ concat gs))"
proof -
  let ?G = "concat (map (\<lambda>g. CHR '','' # g) gs)"
  have gs: "list_all (\<lambda>g. length g = 3 \<and> list_all is_digit g) gs"
    and ds: "list_all is_digit ds" "1 \<le> length ds" "length ds \<le> 3"
    using w by (simp_all add: well_grouped_def)
  have cl: "cleaned_of s = ds @ ?G"
    using f by (simp add: cleaned_of_filter grouped_def)
  have dne: "ds \<noteq> []" using ds(2) by auto
  have ne: "s \<noteq> []" using f dne by (auto simp: grouped_def)
  have "CHR ''.'' \<notin> set ds"
    using ds(1) digit_not_point by (auto simp: list_all_iff)
  then have np: "CHR ''.'' \<notin> set (ds @ ?G)"
    using no_point_in_groups[OF gs] by simp
  have r1: "re_search p_grouped_cents (ds @ ?G) = None" using no_point_search[OF np] .
  have hG: "?G = [] \<or> \<not> is_digit (hd ?G)" by (cases gs) (auto simp: is_digit_def)
  have tw: "takeWhile is_digit (ds @ ?G) = ds" using takeWhile_digits_then[OF ds(1) hG] .
  have t3: "take 3 ds = ds" using ds(3) by simp
  have pg: "p_grouped (ds @ ?G) = Some (ds @ ?G)"
    using dne by (simp add: p_grouped_def tw t3 groups_of_groups[OF gs])
  obtain d0 dr where d0: "ds = d0 # dr" using dne by (cases ds) auto
  have r2: "re_search p_grouped (ds @ ?G) = Some (ds @ ?G)"
    using pg unfolding d0 by simp
  have nc: "nocomma (ds @ ?G) = ds @ concat gs"
    using nocomma_digits[OF ds(1)] nocomma_of_groups[OF gs] by simp
  have dd: "list_all is_digit (ds @ concat gs)" using ds(1) digits_of_groups[OF gs] by simp
  have dec: "decimal_of_string (nocomma (ds @ ?G)) = Some (number_of_digits (ds @ concat gs))"
    unfolding nc by (rule decimal_of_digits[OF dd]) (simp add: dne)
  have "normalize_price s = try_patterns (ds @ ?G) price_patterns"
    using ne by (simp only: normalize_price_def cl if_False)
  also have "\<dots> = try_patterns (ds @ ?G) [p_grouped, p_plain_cents, p_plain]"
    unfolding price_patterns_def by (rule try_patterns_skip[OF r1])
  also have "\<dots> = Some (number_of_digits (ds @ concat gs))"
    by (rule try_patterns_first[OF r2 dec])
  finally show ?thesis .
qed


text \<open>
  C10: \<open>normalize_price\<close> returns for every string either nothing or a number, without
  raising. It returns nothing exactly when the text contains no digit (the empty text
  included). Otherwise the result is not negative and is the conversion, with the
  thousands separators removed, of the match of the first pattern that matches the
  cleaned text: the grouped pattern with cents or else the grouped pattern without,
  which matches whenever there is a digit. The cleaned text consists of the digits,
  points and commas of the input, in order. When these form a number with thousands
  separators, with or without two digits of cents, the result is the number written by
  its digits, in hundredths when there are cents.
\<close>

theorem normalize_price_total:
  "(normalize_price s = None) = (\<not> list_ex is_digit s)
   \<and> (\<forall>v. normalize_price s = Some v \<longrightarrow> 0 \<le> v)
   \<and> cleaned_of s = filter (\<lambda>c. is_digit c \<or> c = CHR ''.'' \<or> c = CHR '','') s
   \<and> (list_ex is_digit s \<longrightarrow>
        normalize_price s =
          (case re_search p_grouped_cents (cleaned_of s) of
             Some m \<Rightarrow> decimal_of_string (filter (\<lambda>c. c \<noteq> CHR '','') m)
           | None \<Rightarrow>
               (case re_search p_grouped (cleaned_of s) of
                  Some m \<Rightarrow> decimal_of_string (filter (\<lambda>c. c \<noteq> CHR '','') m)
                | None \<Rightarrow> None)))
   \<and> (well_grouped ds gs
        \<and> filter (\<lambda>c. is_digit c \<or> c = CHR ''.'' \<or> c = CHR '','') s = grouped ds gs \<longrightarrow>
        normalize_price s = Some (number_of_digits (ds @ concat gs)))
   \<and> (well_grouped ds gs \<and> is_digit c1 \<and> is_digit c2
        \<and> filter (\<lambda>c. is_digit c \<or> c = CHR ''.'' \<or> c = CHR '','') s
              = grouped ds gs @ [CHR ''.'', c1, c2] \<longrightarrow>
        normalize_price s = Some (number_of_digits (ds @ concat gs @ [c1, c2]) / 100))"
proof -
  have a: "(normalize_price s = None) = (\<not> list_ex is_digit s)
     \<and> (\<forall>v. normalize_price s = Some v \<longrightarrow> 0 \<le> v)
     \<and> (list_ex is_digit s \<longrightarrow>
        normalize_price s =
          (case re_search p_grouped_cents (cleaned_of s) of
             Some m \<Rightarrow> decimal_of_string (filter (\<lambda>c. c \<noteq> CHR '','') m)
           | None \<Rightarrow>
               (case re_search p_grouped (cleaned_of s) of
                  Some m \<Rightarrow> decimal_of_string (filter (\<lambda>c. c \<noteq> CHR '','') m)
                | None \<Rightarrow> None)))"
  proof (cases "list_ex is_digit s")
    case True
    then have ne: "s \<noteq> []" by auto
    have cl: "list_ex is_digit (cleaned_of s)" using True by (simp add: cleaned_digits)
    have n: "normalize_price s = try_patterns (cleaned_of s) price_patterns"
      using ne by (simp add: normalize_price_def)
    from try_patterns_digit[OF cl] obtain v where
      eq: "try_patterns (cleaned_of s) price_patterns =
             (case re_search p_grouped_cents (cleaned_of s) of
                Some m \<Rightarrow> decimal_of_string (filter (\<lambda>c. c \<noteq> CHR '','') m)
              | None \<Rightarrow>
                  (case re_search p_grouped (cleaned_of s) of
                     Some m \<Rightarrow> decimal_of_string (filter (\<lambda>c. c \<noteq> CHR '','') m)
                   | None \<Rightarrow> None))" and
      v: "try_patterns (cleaned_of s) price_patterns = Some v" "0 \<le> v"
      by blast
    have a1: "(normalize_price s = None) = (\<not> list_ex is_digit s)"
      using True n v(1) by simp
    have a2: "\<forall>w. normalize_price s = Some w \<longrightarrow> 0 \<le> w"
      using n v by simp
    show ?thesis
      apply (intro conjI)
        apply (rule a1)
       apply (rule a2)
      apply (rule impI)
      apply (simp only: n)
      apply (rule eq)
      done
  next
    case False
    then have cl: "\<not> list_ex is_digit (cleaned_of s)" by (simp add: cleaned_digits)
    have "normalize_price s = None"
      using try_patterns_no_digit[OF cl] by (simp add: normalize_price_def)
    then show ?thesis using False by simp
  qed
  have b: "cleaned_of s = filter (\<lambda>c. is_digit c \<or> c = CHR ''.'' \<or> c = CHR '','') s"
    by (rule cleaned_of_filter)
  have c: "well_grouped ds gs
        \<and> filter (\<lambda>c. is_digit c \<or> c = CHR ''.'' \<or> c = CHR '','') s = grouped ds gs \<longrightarrow>
        normalize_price s = Some (number_of_digits (ds @ concat gs))"
    using normalize_grouped by blast
  have d: "well_grouped ds gs \<and> is_digit c1 \<and> is_digit c2
        \<and> filter (\<lambda>c. is_digit c \<or> c = CHR ''.'' \<or> c = CHR '','') s
              = grouped ds gs @ [CHR ''.'', c1, c2] \<longrightarrow>
        normalize_price s = Some (number_of_digits (ds @ concat gs @ [c1, c2]) / 100)"
    using normalize_grouped_cents by blast
  from a b c d show ?thesis by blast
qed

theorem normalize_price_total_witness:
  "list_ex is_digit ''$1,234.56''
   \<and> well_grouped ''1'' [''234'']
   \<and> filter (\<lambda>c. is_digit c \<or> c = CHR ''.'' \<or> c = CHR '','') ''$1,234.56''
        = grouped ''1'' [''234''] @ ''.56''
   \<and> normalize_price ''$1,234.56'' = Some (123456 / 100)
   \<and> (0::rat) \<le> 123456 / 100
   \<and> filter (\<lambda>c. is_digit c \<or> c = CHR ''.'' \<or> c = CHR '','') ''EUR 1,234'' = grouped ''1'' [''234'']
   \<and> normalize_price ''EUR 1,234'' = Some 1234
   \<and> cleaned_of '' 1 234,50 USD'' = ''1234,50''
   \<and> normalize_price '' 1 234,50 USD'' = Some 123
   \<and> normalize_price ''N/A'' = None"
proof -
  let ?keep = "\<lambda>c. is_digit c \<or> c = CHR ''.'' \<or> c = CHR '',''"
  have d: "list_ex is_digit ''$1,234.56''" by (simp add: is_digit_def)
  have w: "well_grouped ''1'' [''234'']" by (simp add: well_grouped_def is_digit_def)
  have c: "is_digit CHR ''5''" "is_digit CHR ''6''" by (simp_all add: is_digit_def)
  have f1: "filter ?keep ''$1,234.56'' = grouped ''1'' [''234''] @ [CHR ''.'', CHR ''5'', CHR ''6'']"
    by (simp add: grouped_def is_digit_def)
  have f2: "filter ?keep ''EUR 1,234'' = grouped ''1'' [''234'']"
    by (simp add: grouped_def is_digit_def)
  have f3: "filter ?keep '' 1 234,50 USD'' = ''1234,50''"
    by (simp add: is_digit_def)
  have n1: "number_of_digits (''1'' @ concat [''234''] @ [CHR ''5'', CHR ''6'']) = 123456"
    by (simp add: number_of_digits_def digit_value_def)
  have n2: "number_of_digits (''1'' @ concat [''234'']) = 1234"
    by (simp add: number_of_digits_def digit_value_def)
  have e3: "normalize_price '' 1 234,50 USD'' = Some 123" by code_simp
  have nd: "\<not> list_ex is_digit ''N/A''" by (simp add: is_digit_def)
  note t1 = normalize_price_total[of "''$1,234.56''" "''1''" "[''234'']" "CHR ''5''" "CHR ''6''"]
  note t2 = normalize_price_total[of "''EUR 1,234''" "''1''" "[''234'']" "CHR ''5''" "CHR ''6''"]
  note t3 = normalize_price_total[of "'' 1 234,50 USD''" "''1''" "[''234'']" "CHR ''5''" "CHR ''6''"]
  note t4 = normalize_price_total[of "''N/A''" "''1''" "[''234'']" "CHR ''5''" "CHR ''6''"]
  have h1: "well_grouped ''1'' [''234''] \<and> is_digit CHR ''5'' \<and> is_digit CHR ''6''
        \<and> filter ?keep ''$1,234.56'' = grouped ''1'' [''234''] @ [CHR ''.'', CHR ''5'', CHR ''6'']"
    using w c f1 by blast
  have r1: "normalize_price ''$1,234.56'' = Some (123456 / 100)"
    using t1[THEN conjunct2, THEN conjunct2, THEN conjunct2, THEN conjunct2, THEN conjunct2,
             THEN mp, OF h1]
    unfolding n1 .
  have h2: "well_grouped ''1'' [''234''] \<and> filter ?keep ''EUR 1,234'' = grouped ''1'' [''234'']"
    using w f2 by blast
  have r2: "normalize_price ''EUR 1,234'' = Some 1234"
    using t2[THEN conjunct2, THEN conjunct2, THEN conjunct2, THEN conjunct2, THEN conjunct1,
             THEN mp, OF h2]
    unfolding n2 .
  have r3: "cleaned_of '' 1 234,50 USD'' = ''1234,50''"
    using t3[THEN conjunct2, THEN conjunct2, THEN conjunct1] unfolding f3 .
  have r4: "normalize_price ''N/A'' = None"
    using t4[THEN conjunct1] nd by blast
  have p: "(0::rat) \<le> 123456 / 100" by simp
  show ?thesis
    using d w f1 p f2 r1 r2 r3 e3 r4 by blast
qed


section \<open>Properties of the scraper guards\<close>












section \<open>Properties of the pricing engine\<close>

lemma direction_of_thresholds:
  "(direction_of c = ''increasing'') = (c > 2)
   \<and> (direction_of c = ''decreasing'') = (c < -2)
   \<and> (direction_of c = ''stable'') = (\<bar>c\<bar> \<le> 2)"
  by (auto simp: direction_of_def)

lemma trend_of_thresholds:
  "(trend_of c = ''stable'') = (\<bar>c\<bar> < 2)
   \<and> (trend_of c = ''increasing'') = (c \<ge> 2)
   \<and> (trend_of c = ''decreasing'') = (c \<le> -2)"
  by (auto simp: trend_of_def)

text \<open>The list of \<open>get_price_history\<close> is ordered newest first.\<close>

lemma sorted_uminus_rev: "sorted (map uminus (xs::int list)) \<Longrightarrow> sorted (rev xs)"
  by (induction xs) (auto simp: sorted_append)

lemma get_price_history_newest_first:
  "sorted (rev (map he_timestamp (get_price_history now pid days d)))"
proof -
  let ?rows = "filter (\<lambda>p. product_id p = pid \<and> last_updated_at p \<ge> now - days * 86400 * 1000000) (prices d)"
  let ?ts = "map last_updated_at (sort_key (\<lambda>p. - last_updated_at p) ?rows)"
  have "sorted (map (\<lambda>p. - last_updated_at p) (sort_key (\<lambda>p. - last_updated_at p) ?rows))"
    by (rule sorted_sort_key)
  then have "sorted (map uminus ?ts)"
    by (simp add: comp_def)
  then have "sorted (rev ?ts)"
    by (rule sorted_uminus_rev)
  then show ?thesis
    by (simp add: get_price_history_def Let_def comp_def)
qed



text \<open>The overall direction compares the mean of the last ten entries of the list with
  the mean of its first ten.\<close>

lemma overall_direction:
  assumes "calculate_price_trends h = Inr (Trends vts ot)"
  shows "ot_direction ot =
           direction_of (((mean (map he_price (last10 h)) - mean (map he_price (first10 h)))
                           / mean (map he_price (first10 h))) * 100)"
  using assms
  by (auto simp: calculate_price_trends_def Let_def split: if_splits sum.splits)


end
